theory Spec2Isabelle
  imports Complex_Main "HOL-Library.Char_ord" "HOL-Library.List_Lexorder" "HOL-Library.AList"
begin

section \<open>Heartbeat integrity comparison (devices/views.py)\<close>

text \<open>
  This theory embeds the heartbeat comparison helpers of \<^verbatim>\<open>devices/views.py\<close>:
  \<^verbatim>\<open>_get_registration_baseline\<close>, \<^verbatim>\<open>_get_mismatch_reason\<close>, \<^verbatim>\<open>_calculate_severity\<close>,
  \<^verbatim>\<open>_normalize_for_comparison\<close>, \<^verbatim>\<open>_compare_imei_lists\<close>, \<^verbatim>\<open>_compare_ram_with_tolerance\<close>
  and \<^verbatim>\<open>_compare_heartbeat_with_registration\<close>.

  Modelling conventions.
  \<^item> A Python \<^verbatim>\<open>str\<close> is a \<^typ>\<open>string\<close>. The model is exact for ASCII text: case mapping
    acts on the letters A-Z and a-z, whitespace is the ASCII whitespace recognised by
    \<^verbatim>\<open>str.strip\<close> and by the regular-expression class \<^verbatim>\<open>\s\<close>, and a digit is one of 0-9.
    A character outside ASCII stands for the bytes of its UTF-8 encoding. Of Unicode's
    case mappings outside ASCII the model has one: \<^verbatim>\<open>lower()\<close> maps U+212A KELVIN SIGN to
    \<^verbatim>\<open>k\<close>, and \<^verbatim>\<open>upper()\<close> leaves it unchanged. Every other byte outside ASCII is left
    unchanged by both mappings, where Python follows the Unicode tables; so the model
    agrees with the code on ASCII strings and on strings of ASCII characters and U+212A,
    and the property that rests on the case mappings is stated for ASCII strings.
  \<^item> A Python value (a JSON value of a history entry or of a heartbeat, or a tuple built
    by the normaliser) is a \<open>pyval\<close>. A \<^verbatim>\<open>float\<close> is an extended rational; NaN is left
    out (the JSON parser of the request boundary rejects it), and negative zero is
    identified with zero.
  \<^item> A \<^verbatim>\<open>dict\<close> with string keys is an association list read by \<^const>\<open>map_of\<close>: the first
    binding of a key is the live one.
  \<^item> The builtin \<^verbatim>\<open>str()\<close> on a value that is not a string is a parameter \<open>S\<close> of the
    functions that call it (its result on floats and containers is Python's \<^verbatim>\<open>repr\<close>,
    which the theory does not reconstruct); every theorem holds for every \<open>S\<close>.
  \<^item> A raised exception is a value \<open>Inl e\<close>.
\<close>

subsection \<open>Strings\<close>

definition is_upper_ascii :: "char \<Rightarrow> bool" where
  "is_upper_ascii c = (CHR ''A'' \<le> c \<and> c \<le> CHR ''Z'')"

definition is_lower_ascii :: "char \<Rightarrow> bool" where
  "is_lower_ascii c = (CHR ''a'' \<le> c \<and> c \<le> CHR ''z'')"

definition lower_char :: "char \<Rightarrow> char" where
  "lower_char c = (if is_upper_ascii c then char_of (of_char c + (32::nat)) else c)"

definition upper_char :: "char \<Rightarrow> char" where
  "upper_char c = (if is_lower_ascii c then char_of (of_char c - (32::nat)) else c)"

definition is_ascii :: "char \<Rightarrow> bool" where
  "is_ascii c = ((of_char c :: nat) < 128)"

text \<open>U+212A KELVIN SIGN, in UTF-8.\<close>

definition kelvin_sign :: string where
  "kelvin_sign = [CHR 0xE2, CHR 0x84, CHR 0xAA]"

text \<open>\<^verbatim>\<open>s.lower()\<close> and \<^verbatim>\<open>s.upper()\<close>. The Kelvin sign has the lowercase \<^verbatim>\<open>k\<close> and is its own
  uppercase. On a string of ASCII characters and Kelvin signs the two functions give
  Python's results; any other byte outside ASCII is left as it is.\<close>

fun py_lower :: "string \<Rightarrow> string" where
  "py_lower [] = []"
| "py_lower (a # s) =
     (if take 3 (a # s) = kelvin_sign then CHR ''k'' # py_lower (drop 2 s)
      else lower_char a # py_lower s)"

definition py_upper :: "string \<Rightarrow> string" where
  "py_upper s = map upper_char s"

text \<open>The whitespace of \<^verbatim>\<open>str.strip()\<close> and of \<^verbatim>\<open>\s\<close>: codes 9-13, 28-31 and 32.\<close>

definition is_space :: "char \<Rightarrow> bool" where
  "is_space c = (let n = (of_char c :: nat) in (9 \<le> n \<and> n \<le> 13) \<or> (28 \<le> n \<and> n \<le> 32))"

definition py_strip :: "string \<Rightarrow> string" where
  "py_strip s = rev (dropWhile is_space (rev (dropWhile is_space s)))"

text \<open>\<^verbatim>\<open>s.replace(" ", "")\<close>.\<close>

definition remove_spaces :: "string \<Rightarrow> string" where
  "remove_spaces s = filter (\<lambda>c. c \<noteq> CHR '' '') s"

text \<open>\<^verbatim>\<open>t in s\<close> for two strings: \<open>t\<close> occurs in \<open>s\<close> as a contiguous substring.\<close>

fun starts_with :: "string \<Rightarrow> string \<Rightarrow> bool" where
  "starts_with s [] = True"
| "starts_with [] (c # t) = False"
| "starts_with (d # s) (c # t) = (d = c \<and> starts_with s t)"

fun str_contains :: "string \<Rightarrow> string \<Rightarrow> bool" where
  "str_contains [] t = (t = [])"
| "str_contains (c # s) t = (starts_with (c # s) t \<or> str_contains s t)"

text \<open>\<^verbatim>\<open>sep.join(xs)\<close>.\<close>

fun py_join :: "string \<Rightarrow> string list \<Rightarrow> string" where
  "py_join sep [] = []"
| "py_join sep [x] = x"
| "py_join sep (x # y # ys) = x @ sep @ py_join sep (y # ys)"

text \<open>The decimal numeral of a natural number, as \<^verbatim>\<open>str(n)\<close> and an f-string print it.\<close>

definition digit_char :: "nat \<Rightarrow> char" where
  "digit_char d = char_of (48 + d)"

fun str_of_nat :: "nat \<Rightarrow> string" where
  "str_of_nat n = (if n < 10 then [digit_char n] else str_of_nat (n div 10) @ [digit_char (n mod 10)])"

subsection \<open>Python values\<close>

datatype pyfloat = NegInf | Fin rat | PosInf

datatype pyval =
    PNone
  | PBool bool
  | PInt int
  | PFloat pyfloat
  | PStr string
  | PList "pyval list"
  | PTuple "pyval list"
  | PDict "(string \<times> pyval) list"

datatype error = TypeError | AttributeError

type_synonym pydict = "(string \<times> pyval) list"

text \<open>\<^verbatim>\<open>k in d\<close>, \<^verbatim>\<open>d.get(k)\<close> and \<^verbatim>\<open>d.values()\<close>.\<close>

definition dict_has :: "pydict \<Rightarrow> string \<Rightarrow> bool" where
  "dict_has d k = (k \<in> set (map fst d))"

definition dict_get :: "pydict \<Rightarrow> string \<Rightarrow> pyval" where
  "dict_get d k = (case map_of d k of None \<Rightarrow> PNone | Some v \<Rightarrow> v)"

definition dict_values :: "pydict \<Rightarrow> pyval list" where
  "dict_values d = map snd (AList.clearjunk d)"

text \<open>The numeric value of \<^verbatim>\<open>bool\<close>, \<^verbatim>\<open>int\<close> and \<^verbatim>\<open>float\<close>, which \<^verbatim>\<open>==\<close> compares across the
  three types (\<^verbatim>\<open>True == 1 == 1.0\<close>).\<close>

fun num_of :: "pyval \<Rightarrow> pyfloat option" where
  "num_of (PBool b) = Some (Fin (if b then 1 else 0))"
| "num_of (PInt n) = Some (Fin (of_int n))"
| "num_of (PFloat f) = Some f"
| "num_of _ = None"

text \<open>Python's \<^verbatim>\<open>a == b\<close>.\<close>

fun py_eq :: "pyval \<Rightarrow> pyval \<Rightarrow> bool" where
  "py_eq PNone v = (v = PNone)"
| "py_eq (PStr s) v = (v = PStr s)"
| "py_eq (PList xs) v = (case v of PList ys \<Rightarrow> list_all2 py_eq xs ys | _ \<Rightarrow> False)"
| "py_eq (PTuple xs) v = (case v of PTuple ys \<Rightarrow> list_all2 py_eq xs ys | _ \<Rightarrow> False)"
| "py_eq (PDict d) v =
     (case v of
        PDict d' \<Rightarrow>
          set (map fst d) = set (map fst d') \<and>
          list_all (\<lambda>(k, x). case map_of d' k of None \<Rightarrow> False | Some y \<Rightarrow> py_eq x y)
            (filter (\<lambda>(k, x). map_of d k = Some x) d)
      | _ \<Rightarrow> False)"
| "py_eq (PBool b) v = (num_of v = Some (Fin (if b then 1 else 0)))"
| "py_eq (PInt n) v = (num_of v = Some (Fin (of_int n)))"
| "py_eq (PFloat f) v = (num_of v = Some f)"

text \<open>Python's truth value of a value (\<^verbatim>\<open>bool(v)\<close>, as \<^verbatim>\<open>not v\<close> and \<^verbatim>\<open>if v\<close> use it).\<close>

fun truthy :: "pyval \<Rightarrow> bool" where
  "truthy PNone = False"
| "truthy (PBool b) = b"
| "truthy (PInt n) = (n \<noteq> 0)"
| "truthy (PFloat f) = (f \<noteq> Fin 0)"
| "truthy (PStr s) = (s \<noteq> [])"
| "truthy (PList xs) = (xs \<noteq> [])"
| "truthy (PTuple xs) = (xs \<noteq> [])"
| "truthy (PDict d) = (d \<noteq> [])"

text \<open>\<^verbatim>\<open>str(v)\<close>: the string itself for a string, the parameter \<open>S\<close> otherwise.\<close>

definition py_str :: "(pyval \<Rightarrow> string) \<Rightarrow> pyval \<Rightarrow> string" where
  "py_str S v = (case v of PStr s \<Rightarrow> s | _ \<Rightarrow> S v)"

subsection \<open>\<^verbatim>\<open>_normalize_for_comparison\<close>\<close>

definition has_unit :: "string \<Rightarrow> bool" where
  "has_unit s = list_ex (\<lambda>unit. str_contains (py_upper s) unit) [''GB'', ''MB'', ''TB'', ''KB'']"

definition normalize_item :: "(pyval \<Rightarrow> string) \<Rightarrow> pyval \<Rightarrow> string" where
  "normalize_item S item =
     (case item of PStr s \<Rightarrow> py_lower (py_strip s) | _ \<Rightarrow> py_lower (py_str S item))"

fun normalize_for_comparison :: "(pyval \<Rightarrow> string) \<Rightarrow> pyval \<Rightarrow> pyval" where
  "normalize_for_comparison S PNone = PNone"
| "normalize_for_comparison S (PList xs) = PTuple (map PStr (sort (map (normalize_item S) xs)))"
| "normalize_for_comparison S (PStr s) =
     (if has_unit s then PStr (py_lower (remove_spaces s)) else PStr (py_strip (py_lower s)))"
| "normalize_for_comparison S (PDict d) =
     PDict (map (\<lambda>(k, v). (k, normalize_for_comparison S v)) d)"
| "normalize_for_comparison S v = v"

text \<open>The strings that the normaliser rewrites, the value itself or a value of a mapping at
  any depth, have ASCII characters only.\<close>

fun ascii_only :: "pyval \<Rightarrow> bool" where
  "ascii_only (PStr s) = list_all is_ascii s"
| "ascii_only (PDict d) = list_all (\<lambda>(k, v). ascii_only v) d"
| "ascii_only v = True"

subsection \<open>\<^verbatim>\<open>_get_mismatch_reason\<close> and \<^verbatim>\<open>_calculate_severity\<close>\<close>

definition HEARTBEAT_TRACKED_FIELDS :: "string list" where
  "HEARTBEAT_TRACKED_FIELDS =
     [''device_imeis'', ''serial_number'', ''installed_ram'', ''total_storage'',
      ''is_device_rooted'', ''is_usb_debugging_enabled'', ''is_developer_mode_enabled'',
      ''is_bootloader_unlocked'', ''is_custom_rom'']"

definition HIGH_SEVERITY_FIELDS :: "string list" where
  "HIGH_SEVERITY_FIELDS =
     [''serial_number'', ''device_imeis'', ''is_device_rooted'', ''is_usb_debugging_enabled'',
      ''is_developer_mode_enabled'', ''is_bootloader_unlocked'']"

definition MEDIUM_SEVERITY_FIELDS :: "string list" where
  "MEDIUM_SEVERITY_FIELDS = [''installed_ram'', ''total_storage'', ''is_custom_rom'']"

definition reasons :: "(string \<times> string) list" where
  "reasons =
     [(''serial_number'', ''Device serial number mismatch detected''),
      (''device_imeis'', ''Device IMEI mismatch detected''),
      (''is_device_rooted'', ''Device rooting status changed''),
      (''is_usb_debugging_enabled'', ''USB debugging status changed''),
      (''is_developer_mode_enabled'', ''Developer mode status changed''),
      (''is_bootloader_unlocked'', ''Bootloader unlock status changed''),
      (''is_custom_rom'', ''Custom ROM status changed''),
      (''installed_ram'', ''Device RAM configuration changed''),
      (''total_storage'', ''Device storage configuration changed'')]"

definition get_mismatch_reason :: "string \<Rightarrow> string" where
  "get_mismatch_reason field =
     (case map_of reasons field of
        Some r \<Rightarrow> r
      | None \<Rightarrow> ''Field '' @ [CHR 0x27] @ field @ [CHR 0x27] @ '' value changed'')"

definition calculate_severity :: "string \<Rightarrow> string" where
  "calculate_severity field =
     (if field \<in> set HIGH_SEVERITY_FIELDS then ''high''
      else if field \<in> set MEDIUM_SEVERITY_FIELDS then ''medium''
      else ''medium'')"

subsection \<open>\<^verbatim>\<open>_compare_imei_lists\<close>\<close>

text \<open>What \<^verbatim>\<open>for x in v\<close> runs over: the elements of a list or tuple, the characters of a
  string, the keys of a dict; any other value raises \<^verbatim>\<open>TypeError\<close>.\<close>

fun py_iter :: "pyval \<Rightarrow> error + pyval list" where
  "py_iter (PList xs) = Inr xs"
| "py_iter (PTuple xs) = Inr xs"
| "py_iter (PStr s) = Inr (map (\<lambda>c. PStr [c]) s)"
| "py_iter (PDict d) = Inr (map (\<lambda>(k, v). PStr k) (AList.clearjunk d))"
| "py_iter v = Inl TypeError"

definition normalize_imei :: "(pyval \<Rightarrow> string) \<Rightarrow> pyval \<Rightarrow> string" where
  "normalize_imei S imei = py_lower (py_strip (py_str S imei))"

text \<open>The warning of a decreased IMEI count. Its first six characters are the UTF-8
  bytes of the warning sign U+26A0 U+FE0F. The source also computes the list
  \<^verbatim>\<open>missing_imeis\<close>, which the message does not use.\<close>

definition missing_imeis :: "string list \<Rightarrow> string list \<Rightarrow> string list" where
  "missing_imeis registered_normalized current_normalized =
     filter (\<lambda>imei. imei \<notin> set current_normalized) registered_normalized"

definition imei_warning :: "string list \<Rightarrow> string list \<Rightarrow> string" where
  "imei_warning registered_normalized current_normalized =
     (let missing_count = length registered_normalized - length current_normalized in
      [CHR 0xE2, CHR 0x9A, CHR 0xA0, CHR 0xEF, CHR 0xB8, CHR 0x8F] @
      '' SECURITY WARNING: IMEI count decreased from '' @
      str_of_nat (length registered_normalized) @ '' to '' @
      str_of_nat (length current_normalized) @ ''. '' @
      ''Missing '' @ str_of_nat missing_count @ '' IMEI(s). '' @
      ''This could be legitimate SIM removal OR an attempt to hide SIM swap. '' @
      ''Baseline had '' @ str_of_nat (length registered_normalized) @
      '' IMEI(s), now reporting '' @ str_of_nat (length current_normalized) @ ''. '' @
      ''Manual review recommended.'')"

definition compare_imei_lists ::
  "(pyval \<Rightarrow> string) \<Rightarrow> pyval \<Rightarrow> pyval \<Rightarrow> error + (bool \<times> string option)" where
  "compare_imei_lists S registered_imeis current_imeis =
     (if \<not> truthy registered_imeis \<or> \<not> truthy current_imeis then Inr (True, None)
      else
        case py_iter registered_imeis of
          Inl e \<Rightarrow> Inl e
        | Inr rs \<Rightarrow>
            (case py_iter current_imeis of
               Inl e \<Rightarrow> Inl e
             | Inr cs \<Rightarrow>
                 (let registered_normalized = map (normalize_imei S) rs;
                      current_normalized = map (normalize_imei S) cs
                  in if list_ex (\<lambda>current_imei. current_imei \<notin> set registered_normalized)
                          current_normalized
                     then Inr (False, None)
                     else if length current_normalized < length registered_normalized
                     then Inr (True, Some (imei_warning registered_normalized current_normalized))
                     else Inr (True, None))))"

subsection \<open>\<^verbatim>\<open>_compare_ram_with_tolerance\<close>\<close>

text \<open>
  The regular expression \<^verbatim>\<open>(\d+\.?\d*)\s*GB\<close> with \<^verbatim>\<open>re.IGNORECASE\<close>. At a given start
  every quantifier has one way to match (a digit is neither a dot, a space nor a letter),
  so an attempt is: the longest run of digits, which must not be empty; a dot if one
  follows; the longest run of digits; the longest run of whitespace; then \<^verbatim>\<open>G\<close> and \<^verbatim>\<open>B\<close>
  in either case. \<open>match_at\<close> returns the digits before and after the dot of group 1.
\<close>

definition is_digit :: "char \<Rightarrow> bool" where
  "is_digit c = (CHR ''0'' \<le> c \<and> c \<le> CHR ''9'')"

definition match_at :: "string \<Rightarrow> (string \<times> string) option" where
  "match_at s =
     (let d1 = takeWhile is_digit s; r1 = dropWhile is_digit s in
      if d1 = [] then None
      else
        let r2 = (case r1 of c # t \<Rightarrow> if c = CHR ''.'' then t else r1 | [] \<Rightarrow> r1);
            d2 = takeWhile is_digit r2;
            r3 = dropWhile is_space (dropWhile is_digit r2)
        in case r3 of
             g # b # t \<Rightarrow>
               if upper_char g = CHR ''G'' \<and> upper_char b = CHR ''B'' then Some (d1, d2) else None
           | _ \<Rightarrow> None)"

text \<open>\<^verbatim>\<open>re.search\<close>: the attempt at the leftmost start that succeeds.\<close>

fun re_search :: "string \<Rightarrow> (string \<times> string) option" where
  "re_search [] = None"
| "re_search (c # s) =
     (case match_at (c # s) of Some m \<Rightarrow> Some m | None \<Rightarrow> re_search s)"

text \<open>The value of a decimal numeral \<open>d1.d2\<close>.\<close>

definition digits_value :: "string \<Rightarrow> nat" where
  "digits_value ds = foldl (\<lambda>a c. 10 * a + (of_char c - 48)) 0 ds"

definition decimal_value :: "string \<times> string \<Rightarrow> rat" where
  "decimal_value m = (case m of (d1, d2) \<Rightarrow> of_nat (digits_value (d1 @ d2)) / 10 ^ length d2)"

text \<open>
  IEEE 754 binary64 with rounding to nearest, ties to even, as \<^verbatim>\<open>float(str)\<close> and the
  float subtraction compute: 53 significant bits, least exponent -1022, overflow to
  infinity from \<open>2 ^ 1024\<close> on.
\<close>

fun bit_length :: "nat \<Rightarrow> nat" where
  "bit_length n = (if n = 0 then 0 else Suc (bit_length (n div 2)))"

declare bit_length.simps [simp del]

definition pow2 :: "int \<Rightarrow> rat" where
  "pow2 k = (if 0 \<le> k then 2 ^ nat k else 1 / 2 ^ nat (- k))"

text \<open>For \<open>q > 0\<close>, the integer \<open>e\<close> with \<open>2 ^ e \<le> q < 2 ^ (e + 1)\<close>: one less than the bit
  length of \<open>\<lfloor>q\<rfloor>\<close> from 1 on, and below 1 the negated bit length of \<open>\<lceil>1 / q\<rceil> - 1\<close>.\<close>

definition ilog2 :: "rat \<Rightarrow> int" where
  "ilog2 q =
     (if 1 \<le> q then int (bit_length (nat \<lfloor>q\<rfloor>)) - 1
      else - int (bit_length (nat (\<lceil>1 / q\<rceil> - 1))))"

definition round_half_even :: "rat \<Rightarrow> int" where
  "round_half_even q =
     (let f = \<lfloor>q\<rfloor>; d = q - of_int f
      in if d < 1 / 2 then f else if 1 / 2 < d then f + 1 else if even f then f else f + 1)"

definition round_binary64 :: "rat \<Rightarrow> pyfloat" where
  "round_binary64 q =
     (if q = 0 then Fin 0
      else
        let a = \<bar>q\<bar>;
            e = max (ilog2 a) (- 1022);
            u = pow2 (e - 52);
            r = of_int (round_half_even (a / u)) * u
        in if pow2 1024 \<le> r then (if 0 < q then PosInf else NegInf)
           else Fin (if 0 < q then r else - r))"

text \<open>\<^verbatim>\<open>x - 1.0\<close> and \<^verbatim>\<open>x < y\<close> on floats.\<close>

fun float_sub_one :: "pyfloat \<Rightarrow> pyfloat" where
  "float_sub_one (Fin r) = round_binary64 (r - 1)"
| "float_sub_one PosInf = PosInf"
| "float_sub_one NegInf = NegInf"

fun float_less :: "pyfloat \<Rightarrow> pyfloat \<Rightarrow> bool" where
  "float_less (Fin a) (Fin b) = (a < b)"
| "float_less (Fin a) PosInf = True"
| "float_less (Fin a) NegInf = False"
| "float_less NegInf b = (b \<noteq> NegInf)"
| "float_less PosInf b = False"

definition extract_ram_gb :: "pyval \<Rightarrow> pyfloat option" where
  "extract_ram_gb ram_str =
     (case ram_str of
        PStr s \<Rightarrow> (case re_search s of Some m \<Rightarrow> Some (round_binary64 (decimal_value m))
                   | None \<Rightarrow> None)
      | _ \<Rightarrow> None)"

definition ram_reason :: "(pyval \<Rightarrow> string) \<Rightarrow> pyfloat \<Rightarrow> pyfloat \<Rightarrow> pyfloat \<Rightarrow> string" where
  "ram_reason S registered_gb current_gb min_allowed_gb =
     ''RAM decreased significantly: registered '' @ S (PFloat registered_gb) @
     ''GB, current '' @ S (PFloat current_gb) @
     ''GB (minimum allowed: '' @ S (PFloat min_allowed_gb) @ ''GB)''"

definition compare_ram_with_tolerance ::
  "(pyval \<Rightarrow> string) \<Rightarrow> pyval \<Rightarrow> pyval \<Rightarrow> bool \<times> string option" where
  "compare_ram_with_tolerance S registered_ram current_ram =
     (if \<not> truthy registered_ram \<or> \<not> truthy current_ram then (True, None)
      else
        case (extract_ram_gb registered_ram, extract_ram_gb current_ram) of
          (Some registered_gb, Some current_gb) \<Rightarrow>
            (let min_allowed_gb = float_sub_one registered_gb
             in if float_less current_gb min_allowed_gb
                then (False, Some (ram_reason S registered_gb current_gb min_allowed_gb))
                else (True, None))
        | _ \<Rightarrow> (True, None))"

subsection \<open>\<^verbatim>\<open>_get_registration_baseline\<close>\<close>

record history_entry =
  action :: string
  new_values :: pyval

record device =
  device_type :: string
  history :: "history_entry list"

text \<open>\<^verbatim>\<open>device.history.filter(action='create').first()\<close> is the first entry of the history, in
  the order of the query, whose action is \<^verbatim>\<open>create\<close>.\<close>

definition get_registration_baseline :: "device \<Rightarrow> pyval" where
  "get_registration_baseline dev =
     (case find (\<lambda>h. action h = ''create'') (history dev) of
        Some registration_entry \<Rightarrow>
          if truthy (new_values registration_entry) then new_values registration_entry
          else PDict []
      | None \<Rightarrow> PDict [])"

subsection \<open>\<^verbatim>\<open>_compare_heartbeat_with_registration\<close>\<close>

record mismatch =
  field :: string
  severity :: string
  reason :: string

record detail =
  status :: string
  detail_severity :: "string option"
  registered :: pyval
  current :: pyval
  detail_reason :: "string option"
  warning :: "string option"

record comparison =
  mismatches :: "mismatch list"
  high_severity_count :: nat
  medium_severity_count :: nat
  total_mismatches :: nat
  should_auto_lock :: bool
  lock_reason :: "string option"
  comparison_details :: "(string \<times> detail) list"
  baseline_status :: "string option"

text \<open>The result of the two early returns.\<close>

definition skipped_comparison :: "string \<Rightarrow> comparison" where
  "skipped_comparison st =
     \<lparr>mismatches = [], high_severity_count = 0, medium_severity_count = 0,
      total_mismatches = 0, should_auto_lock = False, lock_reason = None,
      comparison_details = [], baseline_status = Some st\<rparr>"

definition MOBILE_ONLY_FIELDS :: "string list" where
  "MOBILE_ONLY_FIELDS =
     [''device_imeis'', ''is_device_rooted'', ''is_usb_debugging_enabled'',
      ''is_developer_mode_enabled'', ''is_bootloader_unlocked'']"

definition DESKTOP_SKIP_FIELDS :: "string list" where
  "DESKTOP_SKIP_FIELDS = [''serial_number'', ''total_storage'', ''is_custom_rom'']"

definition is_desktop :: "device \<Rightarrow> bool" where
  "is_desktop dev = (device_type dev \<in> set [''desktop'', ''laptop''])"

text \<open>The variables the loop updates.\<close>

record loop_state =
  ls_mismatches :: "mismatch list"
  ls_high :: nat
  ls_medium :: nat
  ls_details :: "(string \<times> detail) list"

definition matched_detail :: "string \<Rightarrow> pyval \<Rightarrow> pyval \<Rightarrow> detail" where
  "matched_detail st reg cur =
     \<lparr>status = st, detail_severity = None, registered = reg, current = cur,
      detail_reason = None, warning = None\<rparr>"

definition mismatch_detail :: "string \<Rightarrow> pyval \<Rightarrow> pyval \<Rightarrow> string \<Rightarrow> detail" where
  "mismatch_detail sev reg cur rsn =
     \<lparr>status = ''mismatch'', detail_severity = Some sev, registered = reg, current = cur,
      detail_reason = Some rsn, warning = None\<rparr>"

text \<open>The statements shared by the three mismatch branches: append to \<^verbatim>\<open>mismatches\<close>, set
  \<^verbatim>\<open>comparison_details[field]\<close>, count the severity.\<close>

definition record_mismatch ::
  "loop_state \<Rightarrow> string \<Rightarrow> string \<Rightarrow> string \<Rightarrow> pyval \<Rightarrow> pyval \<Rightarrow> loop_state" where
  "record_mismatch st fld sev rsn reg cur =
     \<lparr>ls_mismatches = ls_mismatches st @ [\<lparr>field = fld, severity = sev, reason = rsn\<rparr>],
      ls_high = (if sev = ''high'' then ls_high st + 1 else ls_high st),
      ls_medium = (if sev = ''high'' then ls_medium st else ls_medium st + 1),
      ls_details = AList.update fld (mismatch_detail sev reg cur rsn) (ls_details st)\<rparr>"

definition record_detail :: "loop_state \<Rightarrow> string \<Rightarrow> detail \<Rightarrow> loop_state" where
  "record_detail st fld d = st\<lparr>ls_details := AList.update fld d (ls_details st)\<rparr>"

text \<open>One iteration of the loop over \<^verbatim>\<open>HEARTBEAT_TRACKED_FIELDS\<close>.\<close>

definition compare_field ::
  "(pyval \<Rightarrow> string) \<Rightarrow> device \<Rightarrow> pydict \<Rightarrow> pydict \<Rightarrow> loop_state \<Rightarrow> string \<Rightarrow>
   error + loop_state" where
  "compare_field S dev registration_data incoming_data st fld =
     (if \<not> dict_has incoming_data fld then Inr st
      else if is_desktop dev \<and> fld \<in> set MOBILE_ONLY_FIELDS then Inr st
      else if is_desktop dev \<and> fld \<in> set DESKTOP_SKIP_FIELDS then Inr st
      else
        let reg = dict_get registration_data fld;
            cur = dict_get incoming_data fld
        in
          if fld = ''device_imeis'' then
            (case compare_imei_lists S reg cur of
               Inl e \<Rightarrow> Inl e
             | Inr (is_ok, warning_message) \<Rightarrow>
                 if \<not> is_ok then
                   Inr (record_mismatch st fld (calculate_severity fld)
                          (get_mismatch_reason fld) reg cur)
                 else
                   (case warning_message of
                      None \<Rightarrow> Inr (record_detail st fld (matched_detail ''matched'' reg cur))
                    | Some w \<Rightarrow>
                        if w \<noteq> [] then
                          Inr (record_detail st fld
                                 ((matched_detail ''matched_with_warning'' reg cur)
                                    \<lparr>warning := Some w\<rparr>))
                        else Inr (record_detail st fld (matched_detail ''matched'' reg cur))))
          else if fld = ''installed_ram'' \<and> is_desktop dev then
            (case compare_ram_with_tolerance S reg cur of
               (is_ok, ram_rsn) \<Rightarrow>
                 if \<not> is_ok then
                   Inr (record_mismatch st fld ''high''
                          (case ram_rsn of
                             Some r \<Rightarrow> if r \<noteq> [] then r else ''Device RAM significantly decreased''
                           | None \<Rightarrow> ''Device RAM significantly decreased'')
                          reg cur)
                 else Inr (record_detail st fld (matched_detail ''matched'' reg cur)))
          else
            let registered_normalized = normalize_for_comparison S reg;
                current_normalized = normalize_for_comparison S cur
            in
              if py_eq registered_normalized current_normalized then
                Inr (record_detail st fld (matched_detail ''matched'' reg cur))
              else if \<not> truthy registered_normalized \<and> \<not> truthy current_normalized then
                Inr (record_detail st fld (matched_detail ''both_empty'' reg cur))
              else
                Inr (record_mismatch st fld (calculate_severity fld)
                       (get_mismatch_reason fld) reg cur))"

text \<open>The loop: the iterations in order, stopping at the first exception.\<close>

fun compare_fields ::
  "(pyval \<Rightarrow> string) \<Rightarrow> device \<Rightarrow> pydict \<Rightarrow> pydict \<Rightarrow> loop_state \<Rightarrow> string list \<Rightarrow>
   error + loop_state" where
  "compare_fields S dev registration_data incoming_data st [] = Inr st"
| "compare_fields S dev registration_data incoming_data st (fld # flds) =
     (case compare_field S dev registration_data incoming_data st fld of
        Inl e \<Rightarrow> Inl e
      | Inr st' \<Rightarrow> compare_fields S dev registration_data incoming_data st' flds)"

text \<open>The statements after the loop.\<close>

definition finish_comparison :: "loop_state \<Rightarrow> comparison" where
  "finish_comparison st =
     (let auto_lock = (0 < ls_high st);
          high_fields = map field (filter (\<lambda>m. severity m = ''high'') (ls_mismatches st))
      in \<lparr>mismatches = ls_mismatches st,
          high_severity_count = ls_high st,
          medium_severity_count = ls_medium st,
          total_mismatches = length (ls_mismatches st),
          should_auto_lock = auto_lock,
          lock_reason =
            (if auto_lock then Some (''Device security compromised: '' @ py_join '', '' high_fields)
             else None),
          comparison_details = ls_details st,
          baseline_status = None\<rparr>)"

definition has_baseline_data :: "pydict \<Rightarrow> bool" where
  "has_baseline_data registration_data =
     list_ex (\<lambda>v. v \<noteq> PNone \<and> \<not> py_eq v (PStr []) \<and> \<not> py_eq v (PList []))
       (dict_values registration_data)"

definition initial_state :: loop_state where
  "initial_state = \<lparr>ls_mismatches = [], ls_high = 0, ls_medium = 0, ls_details = []\<rparr>"

definition compare_heartbeat_with_registration ::
  "(pyval \<Rightarrow> string) \<Rightarrow> device \<Rightarrow> pydict \<Rightarrow> error + comparison" where
  "compare_heartbeat_with_registration S dev incoming_data =
     (let registration_data = get_registration_baseline dev in
      if \<not> truthy registration_data then Inr (skipped_comparison ''not_established'')
      else
        case registration_data of
          PDict d \<Rightarrow>
            if \<not> has_baseline_data d then Inr (skipped_comparison ''empty_baseline'')
            else
              (case compare_fields S dev d incoming_data initial_state HEARTBEAT_TRACKED_FIELDS of
                 Inl e \<Rightarrow> Inl e
               | Inr st \<Rightarrow> Inr (finish_comparison st))
        | _ \<Rightarrow> Inl AttributeError)"

subsection \<open>Example data\<close>

text \<open>
  An instance of the builtin \<^verbatim>\<open>str()\<close> for evaluating the functions at concrete inputs. It
  is Python's \<^verbatim>\<open>str()\<close> on \<^verbatim>\<open>None\<close>, on a bool, on an int, on an infinite float and on a
  float with an integral value of magnitude below \<open>10 ^ 16\<close> (printed with \<^verbatim>\<open>.0\<close>). On the
  remaining values, where Python prints a \<^verbatim>\<open>repr\<close>, it is the empty string; no evaluation
  in this theory calls it there.
\<close>

definition str_of_int :: "int \<Rightarrow> string" where
  "str_of_int n = (if n < 0 then ''-'' @ str_of_nat (nat (- n)) else str_of_nat (nat n))"

fun str_scalar :: "pyval \<Rightarrow> string" where
  "str_scalar PNone = ''None''"
| "str_scalar (PBool b) = (if b then ''True'' else ''False'')"
| "str_scalar (PInt n) = str_of_int n"
| "str_scalar (PFloat PosInf) = ''inf''"
| "str_scalar (PFloat NegInf) = ''-inf''"
| "str_scalar (PFloat (Fin r)) =
     (if of_int \<lfloor>r\<rfloor> = r \<and> \<bar>r\<bar> < 10 ^ 16 then str_of_int \<lfloor>r\<rfloor> @ ''.0'' else [])"
| "str_scalar v = []"

text \<open>A phone and a desktop, each with a registration entry in its history.\<close>

definition phone_baseline :: pydict where
  "phone_baseline =
     [(''serial_number'', PStr ''SN123''),
      (''device_imeis'', PList [PStr ''111111111111111'', PStr ''222222222222222'']),
      (''installed_ram'', PStr ''8GB''),
      (''total_storage'', PStr ''128GB''),
      (''is_device_rooted'', PBool False)]"

definition phone :: device where
  "phone = \<lparr>device_type = ''phone'',
            history = [\<lparr>action = ''update'', new_values = PNone\<rparr>,
                       \<lparr>action = ''create'', new_values = PDict phone_baseline\<rparr>]\<rparr>"

definition desktop_baseline :: pydict where
  "desktop_baseline = [(''installed_ram'', PStr ''16 GB''), (''serial_number'', PStr ''PC-1'')]"

definition desktop :: device where
  "desktop = \<lparr>device_type = ''desktop'',
              history = [\<lparr>action = ''create'', new_values = PDict desktop_baseline\<rparr>]\<rparr>"

text \<open>A heartbeat of the phone with a changed serial number, storage size and rooting
  flag, and the result of comparing it.\<close>

definition tampered_heartbeat :: pydict where
  "tampered_heartbeat =
     [(''serial_number'', PStr ''SN999''), (''total_storage'', PStr ''64GB''),
      (''is_device_rooted'', PBool True)]"

definition tampered_result :: comparison where
  "tampered_result =
     \<lparr>mismatches =
        [\<lparr>field = ''serial_number'', severity = ''high'',
            reason = ''Device serial number mismatch detected''\<rparr>,
         \<lparr>field = ''total_storage'', severity = ''medium'',
            reason = ''Device storage configuration changed''\<rparr>,
         \<lparr>field = ''is_device_rooted'', severity = ''high'',
            reason = ''Device rooting status changed''\<rparr>],
      high_severity_count = 2, medium_severity_count = 1, total_mismatches = 3,
      should_auto_lock = True,
      lock_reason = Some ''Device security compromised: serial_number, is_device_rooted'',
      comparison_details =
        [(''serial_number'', mismatch_detail ''high'' (PStr ''SN123'') (PStr ''SN999'')
            ''Device serial number mismatch detected''),
         (''total_storage'', mismatch_detail ''medium'' (PStr ''128GB'') (PStr ''64GB'')
            ''Device storage configuration changed''),
         (''is_device_rooted'', mismatch_detail ''high'' (PBool False) (PBool True)
            ''Device rooting status changed'')],
      baseline_status = None\<rparr>"

text \<open>A device with no registration entry, and one registered with placeholder values.\<close>

definition unregistered :: device where
  "unregistered = \<lparr>device_type = ''phone'',
     history = [\<lparr>action = ''update'', new_values = PDict [(''model'', PStr ''X'')]\<rparr>]\<rparr>"

definition placeholder_baseline :: pydict where
  "placeholder_baseline =
     [(''serial_number'', PStr []), (''device_imeis'', PList []), (''installed_ram'', PNone)]"

definition placeholder :: device where
  "placeholder = \<lparr>device_type = ''phone'',
     history = [\<lparr>action = ''create'', new_values = PDict placeholder_baseline\<rparr>]\<rparr>"

text \<open>A desktop registered with 16.0GB of RAM, and a heartbeat reporting 8.0GB.\<close>

definition workstation_baseline :: pydict where
  "workstation_baseline = [(''installed_ram'', PStr ''16.0GB'')]"

definition workstation :: device where
  "workstation = \<lparr>device_type = ''desktop'',
     history = [\<lparr>action = ''create'', new_values = PDict workstation_baseline\<rparr>]\<rparr>"

definition halved_ram_heartbeat :: pydict where
  "halved_ram_heartbeat = [(''installed_ram'', PStr ''8.0GB'')]"

definition halved_ram_reason :: string where
  "halved_ram_reason =
     ''RAM decreased significantly: registered 16.0GB, current 8.0GB (minimum allowed: 15.0GB)''"

text \<open>A tablet registered without a serial number and without security flags, and a
  heartbeat that carries a blank serial number and a debugging flag that is off.\<close>

definition tablet_baseline :: pydict where
  "tablet_baseline =
     [(''device_imeis'', PList [PStr ''NO_IMEI_FOUND'']), (''installed_ram'', PStr ''4GB'')]"

definition tablet :: device where
  "tablet = \<lparr>device_type = ''tablet'',
     history = [\<lparr>action = ''create'', new_values = PDict tablet_baseline\<rparr>]\<rparr>"

definition blank_heartbeat :: pydict where
  "blank_heartbeat =
     [(''serial_number'', PStr '' ''), (''is_usb_debugging_enabled'', PBool False)]"

definition blank_result :: comparison where
  "blank_result =
     \<lparr>mismatches = [], high_severity_count = 0, medium_severity_count = 0,
      total_mismatches = 0, should_auto_lock = False, lock_reason = None,
      comparison_details =
        [(''serial_number'', matched_detail ''both_empty'' PNone (PStr '' '')),
         (''is_usb_debugging_enabled'', matched_detail ''both_empty'' PNone (PBool False))],
      baseline_status = None\<rparr>"

definition rooted_heartbeat :: pydict where
  "rooted_heartbeat = [(''is_device_rooted'', PBool True)]"

definition rooted_result :: comparison where
  "rooted_result =
     \<lparr>mismatches =
        [\<lparr>field = ''is_device_rooted'', severity = ''high'',
            reason = ''Device rooting status changed''\<rparr>],
      high_severity_count = 1, medium_severity_count = 0, total_mismatches = 1,
      should_auto_lock = True,
      lock_reason = Some ''Device security compromised: is_device_rooted'',
      comparison_details =
        [(''is_device_rooted'',
          mismatch_detail ''high'' PNone (PBool True) ''Device rooting status changed'')],
      baseline_status = None\<rparr>"

text \<open>A heartbeat of the phone that differs from the baseline in the storage size only, and
  the result of comparing it.\<close>

definition storage_heartbeat :: pydict where
  "storage_heartbeat = [(''serial_number'', PStr ''SN123''), (''total_storage'', PStr ''64GB'')]"

definition storage_result :: comparison where
  "storage_result =
     \<lparr>mismatches =
        [\<lparr>field = ''total_storage'', severity = ''medium'',
            reason = ''Device storage configuration changed''\<rparr>],
      high_severity_count = 0, medium_severity_count = 1, total_mismatches = 1,
      should_auto_lock = False, lock_reason = None,
      comparison_details =
        [(''serial_number'', matched_detail ''matched'' (PStr ''SN123'') (PStr ''SN123'')),
         (''total_storage'', mismatch_detail ''medium'' (PStr ''128GB'') (PStr ''64GB'')
            ''Device storage configuration changed'')],
      baseline_status = None\<rparr>"

text \<open>A value with ASCII strings in a mapping, and its normal form.\<close>

definition sample_value :: pyval where
  "sample_value =
     PDict [(''ram'', PStr '' 16 GB ''), (''tags'', PList [PStr '' B'', PInt 5]),
            (''name'', PStr '' Ab C '')]"

definition sample_normalized :: pyval where
  "sample_normalized =
     PDict [(''ram'', PStr ''16gb''), (''tags'', PTuple [PStr ''5'', PStr ''b'']),
            (''name'', PStr ''ab c'')]"

subsection \<open>Predicates used in the proofs\<close>

text \<open>\<^verbatim>\<open>s.lower()\<close> on an ASCII string.\<close>

definition lower_ascii :: "string \<Rightarrow> string" where
  "lower_ascii s = map lower_char s"

text \<open>The loop passes over a field that the heartbeat does not carry or that the device
  type excludes.\<close>

definition skipped :: "device \<Rightarrow> pydict \<Rightarrow> string \<Rightarrow> bool" where
  "skipped dev inc fld \<longleftrightarrow>
     \<not> dict_has inc fld \<or> (is_desktop dev \<and> fld \<in> set MOBILE_ONLY_FIELDS) \<or>
     (is_desktop dev \<and> fld \<in> set DESKTOP_SKIP_FIELDS)"

text \<open>The counters agree with the list of mismatches.\<close>

definition counted :: "loop_state \<Rightarrow> bool" where
  "counted st \<longleftrightarrow>
     ls_high st = length (filter (\<lambda>m. severity m = ''high'') (ls_mismatches st)) \<and>
     ls_medium st = length (filter (\<lambda>m. severity m = ''medium'') (ls_mismatches st)) \<and>
     list_all (\<lambda>m. severity m = ''high'' \<or> severity m = ''medium'') (ls_mismatches st)"

section \<open>Properties\<close>

subsection \<open>The IMEI comparator\<close>



lemma imei_all_known:
  assumes "R \<noteq> []" "C \<noteq> []" "\<forall>c \<in> set C. normalize_imei S c \<in> normalize_imei S ` set R"
  shows "compare_imei_lists S (PList R) (PList C) =
           Inr (True, if length C < length R
                      then Some (imei_warning (map (normalize_imei S) R) (map (normalize_imei S) C))
                      else None)"
  using assms by (auto simp: compare_imei_lists_def list_ex_iff Let_def)






text \<open>
  Claim C6, as the code has it. When the comparator matches and the current list is
  shorter than the baseline, the warning names the baseline count, the current count and
  the number of IMEIs missing, and nothing else of the two lists: the message is
  determined by the two lengths, and no IMEI is written into it.
\<close>

theorem imei_warning_names_counts:
  "R \<noteq> [] \<and> C \<noteq> [] \<and> (\<forall>c \<in> set C. normalize_imei S c \<in> normalize_imei S ` set R) \<and>
   length C < length R \<longrightarrow>
   compare_imei_lists S (PList R) (PList C) =
     Inr (True, Some (
       [CHR 0xE2, CHR 0x9A, CHR 0xA0, CHR 0xEF, CHR 0xB8, CHR 0x8F] @
       '' SECURITY WARNING: IMEI count decreased from '' @ str_of_nat (length R) @
       '' to '' @ str_of_nat (length C) @ ''. '' @
       ''Missing '' @ str_of_nat (length R - length C) @ '' IMEI(s). '' @
       ''This could be legitimate SIM removal OR an attempt to hide SIM swap. '' @
       ''Baseline had '' @ str_of_nat (length R) @ '' IMEI(s), now reporting '' @
       str_of_nat (length C) @ ''. '' @ ''Manual review recommended.''))"
proof
  assume h: "R \<noteq> [] \<and> C \<noteq> [] \<and> (\<forall>c \<in> set C. normalize_imei S c \<in> normalize_imei S ` set R) \<and>
    length C < length R"
  then have "compare_imei_lists S (PList R) (PList C) =
      Inr (True, Some (imei_warning (map (normalize_imei S) R) (map (normalize_imei S) C)))"
    using imei_all_known [of R C S] by simp
  then show "compare_imei_lists S (PList R) (PList C) =
     Inr (True, Some (
       [CHR 0xE2, CHR 0x9A, CHR 0xA0, CHR 0xEF, CHR 0xB8, CHR 0x8F] @
       '' SECURITY WARNING: IMEI count decreased from '' @ str_of_nat (length R) @
       '' to '' @ str_of_nat (length C) @ ''. '' @
       ''Missing '' @ str_of_nat (length R - length C) @ '' IMEI(s). '' @
       ''This could be legitimate SIM removal OR an attempt to hide SIM swap. '' @
       ''Baseline had '' @ str_of_nat (length R) @ '' IMEI(s), now reporting '' @
       str_of_nat (length C) @ ''. '' @ ''Manual review recommended.''))"
    by (simp only: imei_warning_def Let_def length_map append_assoc)
qed

theorem imei_warning_names_counts_witness:
  "[PStr ''A'', PStr ''B''] \<noteq> [] \<and> [PStr ''A''] \<noteq> [] \<and>
   normalize_imei (\<lambda>v. []) (PStr ''A'')
     \<in> normalize_imei (\<lambda>v. []) ` set [PStr ''A'', PStr ''B''] \<and>
   length [PStr ''A''] < length [PStr ''A'', PStr ''B''] \<and>
   compare_imei_lists (\<lambda>v. []) (PList [PStr ''A'', PStr ''B'']) (PList [PStr ''A'']) =
     Inr (True, Some (
       [CHR 0xE2, CHR 0x9A, CHR 0xA0, CHR 0xEF, CHR 0xB8, CHR 0x8F] @
       '' SECURITY WARNING: IMEI count decreased from 2 to 1. Missing 1 IMEI(s). '' @
       ''This could be legitimate SIM removal OR an attempt to hide SIM swap. '' @
       ''Baseline had 2 IMEI(s), now reporting 1. Manual review recommended.''))"
proof -
  have h: "[PStr ''A'', PStr ''B''] \<noteq> [] \<and> [PStr ''A''] \<noteq> [] \<and>
     (\<forall>c \<in> set [PStr ''A'']. normalize_imei (\<lambda>v. []) c
        \<in> normalize_imei (\<lambda>v. []) ` set [PStr ''A'', PStr ''B'']) \<and>
     length [PStr ''A''] < length [PStr ''A'', PStr ''B'']"
    by simp
  have n: "str_of_nat (length [PStr ''A'', PStr ''B'']) = ''2''"
    "str_of_nat (length [PStr ''A'']) = ''1''"
    "str_of_nat (length [PStr ''A'', PStr ''B''] - length [PStr ''A'']) = ''1''"
    by code_simp+
  from imei_warning_names_counts [of "[PStr ''A'', PStr ''B'']" "[PStr ''A'']" "\<lambda>v. []"] h
  have "compare_imei_lists (\<lambda>v. []) (PList [PStr ''A'', PStr ''B'']) (PList [PStr ''A'']) =
     Inr (True, Some (
       [CHR 0xE2, CHR 0x9A, CHR 0xA0, CHR 0xEF, CHR 0xB8, CHR 0x8F] @
       '' SECURITY WARNING: IMEI count decreased from '' @ str_of_nat (length [PStr ''A'', PStr ''B'']) @
       '' to '' @ str_of_nat (length [PStr ''A'']) @ ''. '' @
       ''Missing '' @ str_of_nat (length [PStr ''A'', PStr ''B''] - length [PStr ''A'']) @ '' IMEI(s). '' @
       ''This could be legitimate SIM removal OR an attempt to hide SIM swap. '' @
       ''Baseline had '' @ str_of_nat (length [PStr ''A'', PStr ''B'']) @ '' IMEI(s), now reporting '' @
       str_of_nat (length [PStr ''A'']) @ ''. '' @ ''Manual review recommended.''))"
    by blast
  then show ?thesis unfolding n using h by simp
qed

text \<open>
  Claim C6 as stated fails. With the baseline IMEIs \<open>111111111111111\<close> and
  \<open>222222222222222\<close> and the current list holding only the first, the warning does not
  contain the missing IMEI; and it is the same message when the missing IMEI is
  \<open>333333333333333\<close> instead.
\<close>

theorem imei_warning_enumerates_counterexample:
  "compare_imei_lists (\<lambda>v. [])
     (PList [PStr ''111111111111111'', PStr ''222222222222222''])
     (PList [PStr ''111111111111111'']) =
     Inr (True, Some (imei_warning [''111111111111111'', ''222222222222222'']
                        [''111111111111111''])) \<and>
   \<not> str_contains (imei_warning [''111111111111111'', ''222222222222222'']
                     [''111111111111111'']) ''222222222222222'' \<and>
   compare_imei_lists (\<lambda>v. [])
     (PList [PStr ''111111111111111'', PStr ''222222222222222''])
     (PList [PStr ''111111111111111'']) =
   compare_imei_lists (\<lambda>v. [])
     (PList [PStr ''111111111111111'', PStr ''333333333333333''])
     (PList [PStr ''111111111111111''])"
  by code_simp

subsection \<open>Characters and strings\<close>

lemma char_le_iff: "(c::char) \<le> d \<longleftrightarrow> (of_char c :: nat) \<le> of_char d"
  by (simp add: less_eq_char_def)

lemma lower_char_idem: "lower_char (lower_char c) = lower_char c"
  by (auto simp: lower_char_def is_upper_ascii_def char_le_iff)

lemma upper_lower_char: "upper_char (lower_char c) = upper_char c"
  by (auto simp: lower_char_def upper_char_def is_upper_ascii_def is_lower_ascii_def char_le_iff)

lemma is_space_lower_char: "is_space (lower_char c) = is_space c"
  by (auto simp: lower_char_def is_upper_ascii_def char_le_iff is_space_def Let_def)

lemma is_space_upper_char: "is_space (upper_char c) = is_space c"
  by (auto simp: upper_char_def is_lower_ascii_def char_le_iff is_space_def Let_def)

lemma of_char_space: "(of_char (CHR '' '') :: nat) = 32"
  by simp

lemma lower_char_space: "lower_char c = CHR '' '' \<longleftrightarrow> c = CHR '' ''"
proof
  assume h: "lower_char c = CHR '' ''"
  show "c = CHR '' ''"
  proof (cases "is_upper_ascii c")
    case True
    then have "(of_char (lower_char c) :: nat) = of_char c + 32"
      by (auto simp: lower_char_def is_upper_ascii_def char_le_iff)
    moreover have "(65::nat) \<le> of_char c" using True by (simp add: is_upper_ascii_def char_le_iff)
    ultimately show ?thesis using h by simp
  next
    case False
    then show ?thesis using h by (simp add: lower_char_def)
  qed
next
  assume "c = CHR '' ''"
  then show "lower_char c = CHR '' ''"
    by (simp add: lower_char_def is_upper_ascii_def char_le_iff)
qed

lemma upper_char_space: "upper_char c = CHR '' '' \<longleftrightarrow> c = CHR '' ''"
proof
  assume h: "upper_char c = CHR '' ''"
  show "c = CHR '' ''"
  proof (cases "is_lower_ascii c")
    case True
    then have "(of_char (upper_char c) :: nat) = of_char c - 32"
      by (auto simp: upper_char_def is_lower_ascii_def char_le_iff)
    moreover have "(97::nat) \<le> of_char c" using True by (simp add: is_lower_ascii_def char_le_iff)
    ultimately show ?thesis using h by simp
  next
    case False
    then show ?thesis using h by (simp add: upper_char_def)
  qed
next
  assume "c = CHR '' ''"
  then show "upper_char c = CHR '' ''"
    by (simp add: upper_char_def is_lower_ascii_def char_le_iff)
qed

lemma lower_ascii_idem: "lower_ascii (lower_ascii s) = lower_ascii s"
  by (simp add: lower_ascii_def lower_char_idem)

lemma py_upper_lower: "py_upper (lower_ascii s) = py_upper s"
  by (simp add: lower_ascii_def py_upper_def upper_lower_char)

lemma dropWhile_space_map:
  "(\<And>c. is_space (f c) = is_space c) \<Longrightarrow>
   dropWhile is_space (map f s) = map f (dropWhile is_space s)"
  by (induction s) auto

lemma py_strip_map:
  assumes "\<And>c. is_space (f c) = is_space c"
  shows "py_strip (map f s) = map f (py_strip s)"
proof -
  have 1: "dropWhile is_space (map f xs) = map f (dropWhile is_space xs)" for xs
    using assms by (rule dropWhile_space_map)
  have "py_strip (map f s) = rev (dropWhile is_space (rev (map f (dropWhile is_space s))))"
    by (simp only: py_strip_def 1)
  also have "\<dots> = rev (dropWhile is_space (map f (rev (dropWhile is_space s))))"
    by (simp only: rev_map)
  also have "\<dots> = rev (map f (dropWhile is_space (rev (dropWhile is_space s))))"
    by (simp only: 1)
  also have "\<dots> = map f (py_strip s)"
    by (simp only: py_strip_def rev_map)
  finally show ?thesis .
qed

lemma py_strip_lower: "py_strip (lower_ascii s) = lower_ascii (py_strip s)"
  unfolding lower_ascii_def by (rule py_strip_map) (rule is_space_lower_char)

lemma py_strip_upper: "py_strip (py_upper s) = py_upper (py_strip s)"
  unfolding py_upper_def by (rule py_strip_map) (rule is_space_upper_char)

lemma dropWhile_head: "xs \<noteq> [] \<Longrightarrow> \<not> P (hd xs) \<Longrightarrow> dropWhile P xs = xs"
  by (cases xs) auto

lemma py_strip_decompose: "\<exists>a b. s = a @ py_strip s @ b"
proof -
  let ?t = "dropWhile is_space s"
  have "s = takeWhile is_space s @ ?t" by simp
  moreover have "rev ?t = takeWhile is_space (rev ?t) @ dropWhile is_space (rev ?t)" by simp
  then have "?t = rev (dropWhile is_space (rev ?t)) @ rev (takeWhile is_space (rev ?t))"
    by (metis rev_append rev_rev_ident)
  ultimately have "s = takeWhile is_space s @ py_strip s @ rev (takeWhile is_space (rev ?t))"
    unfolding py_strip_def by simp
  then show ?thesis by blast
qed

lemma py_strip_idem: "py_strip (py_strip s) = py_strip s"
proof -
  let ?t = "dropWhile is_space s"
  let ?r = "dropWhile is_space (rev ?t)"
  let ?u = "rev ?r"
  have u: "py_strip s = ?u" by (simp add: py_strip_def)
  have t: "?t = ?u @ rev (takeWhile is_space (rev ?t))"
    by (metis rev_append rev_rev_ident takeWhile_dropWhile_id)
  have 1: "dropWhile is_space ?u = ?u"
  proof (cases "?u = []")
    case True
    show ?thesis by (simp only: True dropWhile.simps)
  next
    case False
    have "?t \<noteq> []"
    proof
      assume e: "?t = []"
      have "?u = []" by (simp only: e rev.simps dropWhile.simps)
      with False show False by simp
    qed
    then have "\<not> is_space (hd ?t)" by (rule hd_dropWhile)
    moreover have "hd ?t = hd ?u" using t False by (metis hd_append2)
    ultimately show ?thesis using False by (simp add: dropWhile_head)
  qed
  have 2: "dropWhile is_space ?r = ?r" by simp
  have "py_strip ?u = rev (dropWhile is_space (rev (dropWhile is_space ?u)))"
    by (simp only: py_strip_def)
  also have "\<dots> = rev (dropWhile is_space ?r)" by (simp only: 1 rev_rev_ident)
  also have "\<dots> = ?u" by (simp only: 2)
  finally show ?thesis by (simp only: u)
qed

lemma starts_with_iff: "starts_with s t \<longleftrightarrow> (\<exists>b. s = t @ b)"
  by (induction s t rule: starts_with.induct) auto

lemma str_contains_iff: "str_contains s t \<longleftrightarrow> (\<exists>a b. s = a @ t @ b)"
proof (induction s)
  case Nil
  then show ?case by auto
next
  case (Cons c s)
  show ?case
  proof
    assume "str_contains (c # s) t"
    then consider "starts_with (c # s) t" | "str_contains s t" by auto
    then show "\<exists>a b. c # s = a @ t @ b"
    proof cases
      case 1
      then obtain b where "c # s = [] @ t @ b" by (auto simp: starts_with_iff)
      then show ?thesis by blast
    next
      case 2
      then obtain a b where "s = a @ t @ b" using Cons.IH by blast
      then have "c # s = (c # a) @ t @ b" by simp
      then show ?thesis by blast
    qed
  next
    assume "\<exists>a b. c # s = a @ t @ b"
    then obtain a b where ab: "c # s = a @ t @ b" by blast
    show "str_contains (c # s) t"
    proof (cases a)
      case Nil
      then have "starts_with (c # s) t" using ab by (auto simp: starts_with_iff)
      then show ?thesis by simp
    next
      case (Cons x a')
      then have "s = a' @ t @ b" using ab by simp
      then have "str_contains s t" using Cons.IH by blast
      then show ?thesis by simp
    qed
  qed
qed

lemma str_contains_infix:
  "str_contains s t \<Longrightarrow> str_contains (a @ s @ b) t"
proof -
  assume "str_contains s t"
  then obtain x y where "s = x @ t @ y" by (auto simp: str_contains_iff)
  then have "a @ s @ b = (a @ x) @ t @ (y @ b)" by simp
  then show ?thesis unfolding str_contains_iff by blast
qed

lemma str_contains_strip: "str_contains (py_strip s) t \<Longrightarrow> str_contains s t"
  using py_strip_decompose [of s] str_contains_infix by metis

lemma str_contains_remove_spaces:
  assumes "str_contains s t" "CHR '' '' \<notin> set t"
  shows "str_contains (remove_spaces s) t"
proof -
  obtain a b where "s = a @ t @ b" using assms(1) by (auto simp: str_contains_iff)
  moreover have "remove_spaces t = t"
    using assms(2) unfolding remove_spaces_def by (induction t) auto
  ultimately have "remove_spaces s = remove_spaces a @ t @ remove_spaces b"
    by (simp add: remove_spaces_def)
  then show ?thesis unfolding str_contains_iff by blast
qed

lemma remove_spaces_upper: "remove_spaces (py_upper s) = py_upper (remove_spaces s)"
  by (induction s) (auto simp: remove_spaces_def py_upper_def upper_char_space)

lemma remove_spaces_lower: "remove_spaces (lower_ascii s) = lower_ascii (remove_spaces s)"
  by (induction s) (auto simp: remove_spaces_def lower_ascii_def lower_char_space)

lemma remove_spaces_idem: "remove_spaces (remove_spaces s) = remove_spaces s"
  by (simp add: remove_spaces_def)

lemma has_unit_iff:
  "has_unit s \<longleftrightarrow> (\<exists>unit \<in> set [''GB'', ''MB'', ''TB'', ''KB'']. str_contains (py_upper s) unit)"
  by (simp add: has_unit_def)

lemma has_unit_normalized:
  assumes "has_unit s"
  shows "has_unit (lower_ascii (remove_spaces s))"
proof -
  obtain unit where u: "unit \<in> set [''GB'', ''MB'', ''TB'', ''KB'']"
    "str_contains (py_upper s) unit"
    using assms unfolding has_unit_iff by blast
  then have "CHR '' '' \<notin> set unit" by auto
  then have "str_contains (remove_spaces (py_upper s)) unit"
    using u(2) by (rule str_contains_remove_spaces [rotated])
  then have "str_contains (py_upper (lower_ascii (remove_spaces s))) unit"
    by (simp add: remove_spaces_upper py_upper_lower)
  then show ?thesis unfolding has_unit_iff using u(1) by blast
qed

lemma no_unit_normalized:
  assumes "\<not> has_unit s"
  shows "\<not> has_unit (py_strip (lower_ascii s))"
proof
  assume "has_unit (py_strip (lower_ascii s))"
  then obtain unit where u: "unit \<in> set [''GB'', ''MB'', ''TB'', ''KB'']"
    "str_contains (py_upper (py_strip (lower_ascii s))) unit"
    unfolding has_unit_iff by blast
  have "py_upper (py_strip (lower_ascii s)) = py_strip (py_upper s)"
    by (simp add: py_strip_upper [symmetric] py_upper_lower)
  then have "str_contains (py_upper s) unit"
    using u(2) by (simp add: str_contains_strip)
  then show False using assms u(1) unfolding has_unit_iff by blast
qed

subsection \<open>The comparison value normaliser\<close>

lemma kelvin_not_ascii: "is_ascii a \<Longrightarrow> take 3 (a # s) \<noteq> kelvin_sign"
  by (auto simp: kelvin_sign_def is_ascii_def)

lemma py_lower_ascii: "list_all is_ascii s \<Longrightarrow> py_lower s = lower_ascii s"
proof (induction s)
  case Nil
  show ?case by (simp add: lower_ascii_def)
next
  case (Cons a s)
  have a: "is_ascii a" and s: "list_all is_ascii s" using Cons.prems by simp_all
  have "py_lower (a # s) = lower_char a # py_lower s"
    using kelvin_not_ascii [OF a, of s] by simp
  then show ?case using Cons.IH [OF s] by (simp add: lower_ascii_def)
qed

lemma lower_char_ascii: "is_ascii c \<Longrightarrow> is_ascii (lower_char c)"
  by (auto simp: lower_char_def is_upper_ascii_def is_ascii_def char_le_iff)

lemma lower_ascii_ascii: "list_all is_ascii s \<Longrightarrow> list_all is_ascii (lower_ascii s)"
  by (simp add: lower_ascii_def list_all_iff lower_char_ascii)

lemma remove_spaces_ascii: "list_all is_ascii s \<Longrightarrow> list_all is_ascii (remove_spaces s)"
  by (simp add: remove_spaces_def list_all_iff)

lemma py_strip_ascii:
  assumes "list_all is_ascii s"
  shows "list_all is_ascii (py_strip s)"
proof -
  obtain a b where "s = a @ py_strip s @ b" using py_strip_decompose by blast
  then have "set (py_strip s) \<subseteq> set s" by (metis Un_upper1 Un_upper2 set_append subset_trans)
  then show ?thesis using assms by (auto simp: list_all_iff)
qed

lemma normalize_str_idem:
  assumes "list_all is_ascii s"
  shows "normalize_for_comparison S (normalize_for_comparison S (PStr s)) =
    normalize_for_comparison S (PStr s)"
proof (cases "has_unit s")
  case True
  let ?r = "lower_ascii (remove_spaces s)"
  have a1: "list_all is_ascii (remove_spaces s)" using assms by (rule remove_spaces_ascii)
  have n1: "normalize_for_comparison S (PStr s) = PStr ?r"
    using True by (simp add: py_lower_ascii [OF a1])
  have a2: "list_all is_ascii (remove_spaces ?r)"
    by (rule remove_spaces_ascii [OF lower_ascii_ascii [OF a1]])
  have fp: "lower_ascii (remove_spaces ?r) = ?r"
    by (simp add: remove_spaces_lower remove_spaces_idem lower_ascii_idem)
  have "normalize_for_comparison S (PStr ?r) = PStr ?r"
    using has_unit_normalized [OF True] by (simp add: py_lower_ascii [OF a2] fp)
  then show ?thesis by (simp only: n1)
next
  case False
  let ?r = "py_strip (lower_ascii s)"
  have n1: "normalize_for_comparison S (PStr s) = PStr ?r"
    using False by (simp add: py_lower_ascii [OF assms])
  have a2: "list_all is_ascii ?r"
    by (rule py_strip_ascii [OF lower_ascii_ascii [OF assms]])
  have fp: "py_strip (lower_ascii ?r) = ?r"
    by (simp add: py_strip_lower lower_ascii_idem py_strip_idem)
  have "normalize_for_comparison S (PStr ?r) = PStr ?r"
    using no_unit_normalized [OF False] by (simp add: py_lower_ascii [OF a2] fp)
  then show ?thesis by (simp only: n1)
qed

lemma normalize_idem:
  "ascii_only v \<Longrightarrow>
   normalize_for_comparison S (normalize_for_comparison S v) = normalize_for_comparison S v"
proof (induction S v rule: normalize_for_comparison.induct)
  case (3 S s)
  then show ?case using normalize_str_idem [of s S] by simp
next
  case (4 S d)
  have h: "normalize_for_comparison S (normalize_for_comparison S (snd x)) =
      normalize_for_comparison S (snd x)" if "x \<in> set d" for x
  proof -
    have "ascii_only (snd x)" using "4.prems" that by (cases x) (auto simp: list_all_iff)
    then show ?thesis using "4.IH" that by (cases x) auto
  qed
  have "map (\<lambda>(k, v). (k, normalize_for_comparison S v))
          (map (\<lambda>(k, v). (k, normalize_for_comparison S v)) d) =
        map (\<lambda>(k, v). (k, normalize_for_comparison S v)) d"
    using h by (simp add: case_prod_beta)
  then show ?case by simp
qed simp_all

lemma py_eq_refl: "py_eq v v"
proof (induction v)
  case (PList xs)
  then show ?case by (simp add: list_all2_same)
next
  case (PTuple xs)
  then show ?case by (simp add: list_all2_same)
next
  case (PDict d)
  have "list_all (\<lambda>(k, x). case map_of d k of None \<Rightarrow> False | Some y \<Rightarrow> py_eq x y)
          (filter (\<lambda>(k, x). map_of d k = Some x) d)"
    unfolding list_all_iff
  proof (clarify)
    fix k x
    assume kx: "(k, x) \<in> set (filter (\<lambda>(k, x). map_of d k = Some x) d)"
    then have "map_of d k = Some x" "(k, x) \<in> set d" by auto
    moreover have "py_eq x x" using PDict kx by fastforce
    ultimately show "case map_of d k of None \<Rightarrow> False | Some y \<Rightarrow> py_eq x y" by simp
  qed
  then show ?case by simp
qed simp_all

text \<open>
  Claim C8, as the code has it. The comparison value normaliser is idempotent on the
  values whose strings are ASCII: for every value, of any shape (\<^verbatim>\<open>None\<close>, a string with
  or without a unit token, a list, a mapping, a bool, a number, a tuple), in which each
  string that the normaliser rewrites (the value itself, or a value of a mapping at any
  depth) has ASCII characters only, normalising the normalised value returns it
  unchanged, so the two are equal under Python's \<^verbatim>\<open>==\<close>.
\<close>

theorem normalize_idempotent:
  "ascii_only v \<longrightarrow>
   normalize_for_comparison S (normalize_for_comparison S v) = normalize_for_comparison S v \<and>
   py_eq (normalize_for_comparison S (normalize_for_comparison S v))
     (normalize_for_comparison S v)"
  by (simp add: normalize_idem py_eq_refl)

theorem normalize_idempotent_witness:
  "ascii_only sample_value \<and>
   normalize_for_comparison str_scalar sample_value = sample_normalized \<and>
   normalize_for_comparison str_scalar sample_normalized = sample_normalized"
proof -
  have 1: "ascii_only sample_value" by code_simp
  have 2: "normalize_for_comparison str_scalar sample_value = sample_normalized"
    by code_simp
  note g = normalize_idempotent [of sample_value str_scalar, THEN mp, OF 1, THEN conjunct1]
  have 3: "normalize_for_comparison str_scalar sample_normalized = sample_normalized"
    using g unfolding 2 .
  show ?thesis by (intro conjI 1 2 3)
qed

text \<open>
  Claim C8 as stated fails. \<^verbatim>\<open>str.lower()\<close> maps U+212A KELVIN SIGN to \<^verbatim>\<open>k\<close>, and
  \<^verbatim>\<open>str.upper()\<close> leaves it unchanged. In the string made of that sign and \<^verbatim>\<open>B 1\<close> the
  first pass sees no unit token, and lower-cases and trims it to \<^verbatim>\<open>kb 1\<close>; the second
  pass sees the token \<^verbatim>\<open>KB\<close> and removes the space: \<^verbatim>\<open>kb1\<close>.
\<close>

theorem normalize_not_idempotent_counterexample:
  "normalize_for_comparison str_scalar (PStr (kelvin_sign @ ''B 1'')) = PStr ''kb 1'' \<and>
   normalize_for_comparison str_scalar (PStr ''kb 1'') = PStr ''kb1'' \<and>
   normalize_for_comparison str_scalar
     (normalize_for_comparison str_scalar (PStr (kelvin_sign @ ''B 1''))) \<noteq>
   normalize_for_comparison str_scalar (PStr (kelvin_sign @ ''B 1'')) \<and>
   \<not> py_eq (normalize_for_comparison str_scalar
              (normalize_for_comparison str_scalar (PStr (kelvin_sign @ ''B 1''))))
        (normalize_for_comparison str_scalar (PStr (kelvin_sign @ ''B 1'')))"
  by code_simp

subsection \<open>The comparison loop\<close>

lemma calculate_severity_cases:
  "calculate_severity f = ''high'' \<or> calculate_severity f = ''medium''"
  by (simp add: calculate_severity_def)

text \<open>An iteration leaves the state alone, stores a detail, or records a mismatch of
  severity high or medium.\<close>

lemma compare_field_skipped:
  "skipped dev inc fld \<Longrightarrow> compare_field S dev d inc st fld = Inr st"
  unfolding compare_field_def skipped_def by (simp only: if_True if_False split: if_split) blast

lemma compare_field_imei:
  assumes "\<not> skipped dev inc fld" "fld = ''device_imeis''"
  shows "compare_field S dev d inc st fld =
     (case compare_imei_lists S (dict_get d fld) (dict_get inc fld) of
        Inl e \<Rightarrow> Inl e
      | Inr (is_ok, warning_message) \<Rightarrow>
          if \<not> is_ok then
            Inr (record_mismatch st fld (calculate_severity fld) (get_mismatch_reason fld)
                   (dict_get d fld) (dict_get inc fld))
          else
            (case warning_message of
               None \<Rightarrow> Inr (record_detail st fld
                               (matched_detail ''matched'' (dict_get d fld) (dict_get inc fld)))
             | Some w \<Rightarrow>
                 if w \<noteq> [] then
                   Inr (record_detail st fld
                          ((matched_detail ''matched_with_warning'' (dict_get d fld)
                              (dict_get inc fld)) \<lparr>warning := Some w\<rparr>))
                 else Inr (record_detail st fld
                             (matched_detail ''matched'' (dict_get d fld) (dict_get inc fld)))))"
proof -
  have 1: "dict_has inc fld" "\<not> (is_desktop dev \<and> fld \<in> set MOBILE_ONLY_FIELDS)"
    "\<not> (is_desktop dev \<and> fld \<in> set DESKTOP_SKIP_FIELDS)"
    using assms(1) unfolding skipped_def by blast+
  show ?thesis
    unfolding compare_field_def Let_def
    by (simp only: 1 assms(2) [symmetric] not_not not_True_eq_False not_False_eq_True if_True if_False refl)
qed

lemma compare_field_ram:
  assumes "\<not> skipped dev inc fld" "fld \<noteq> ''device_imeis''" "fld = ''installed_ram''"
    "is_desktop dev"
  shows "compare_field S dev d inc st fld =
     (case compare_ram_with_tolerance S (dict_get d fld) (dict_get inc fld) of
        (is_ok, ram_rsn) \<Rightarrow>
          if \<not> is_ok then
            Inr (record_mismatch st fld ''high''
                   (case ram_rsn of
                      Some r \<Rightarrow> if r \<noteq> [] then r else ''Device RAM significantly decreased''
                    | None \<Rightarrow> ''Device RAM significantly decreased'')
                   (dict_get d fld) (dict_get inc fld))
          else Inr (record_detail st fld
                      (matched_detail ''matched'' (dict_get d fld) (dict_get inc fld))))"
proof -
  have 1: "dict_has inc fld" "\<not> (is_desktop dev \<and> fld \<in> set MOBILE_ONLY_FIELDS)"
    "\<not> (is_desktop dev \<and> fld \<in> set DESKTOP_SKIP_FIELDS)"
    using assms(1) unfolding skipped_def by blast+
  have 2: "(fld = ''device_imeis'') = False" using assms(2) by simp
  have 3: "(fld = ''installed_ram'' \<and> is_desktop dev) = True" using assms(3,4) by simp
  show ?thesis
    unfolding compare_field_def Let_def
    by (simp only: 1 2 3 not_not not_True_eq_False not_False_eq_True if_True if_False)
qed

lemma compare_field_exact:
  assumes "\<not> skipped dev inc fld" "fld \<noteq> ''device_imeis''"
    "\<not> (fld = ''installed_ram'' \<and> is_desktop dev)"
  shows "compare_field S dev d inc st fld =
     (if py_eq (normalize_for_comparison S (dict_get d fld))
           (normalize_for_comparison S (dict_get inc fld))
      then Inr (record_detail st fld
                  (matched_detail ''matched'' (dict_get d fld) (dict_get inc fld)))
      else if \<not> truthy (normalize_for_comparison S (dict_get d fld)) \<and>
              \<not> truthy (normalize_for_comparison S (dict_get inc fld))
      then Inr (record_detail st fld
                  (matched_detail ''both_empty'' (dict_get d fld) (dict_get inc fld)))
      else Inr (record_mismatch st fld (calculate_severity fld) (get_mismatch_reason fld)
                  (dict_get d fld) (dict_get inc fld)))"
proof -
  have 1: "dict_has inc fld" "\<not> (is_desktop dev \<and> fld \<in> set MOBILE_ONLY_FIELDS)"
    "\<not> (is_desktop dev \<and> fld \<in> set DESKTOP_SKIP_FIELDS)"
    using assms(1) unfolding skipped_def by blast+
  have 2: "(fld = ''device_imeis'') = False" using assms(2) by simp
  have 3: "(fld = ''installed_ram'' \<and> is_desktop dev) = False" using assms(3) by simp
  show ?thesis
    unfolding compare_field_def Let_def
    by (simp only: 1 2 3 not_not not_True_eq_False not_False_eq_True if_True if_False)
qed

lemma matched_detail_status: "status (matched_detail s r c) = s"
  by (simp add: matched_detail_def)

lemma compare_field_result:
  assumes "compare_field S dev d inc st fld = Inr st'"
  shows "st' = st \<or> (\<exists>dt. st' = record_detail st fld dt \<and> status dt \<noteq> ''mismatch'') \<or>
         (\<exists>sev rsn reg cur. st' = record_mismatch st fld sev rsn reg cur \<and>
            (sev = ''high'' \<or> sev = ''medium''))"
proof -
  have sev: "calculate_severity fld = ''high'' \<or> calculate_severity fld = ''medium''"
    by (rule calculate_severity_cases)
  consider (skip) "skipped dev inc fld"
    | (imei) "\<not> skipped dev inc fld" "fld = ''device_imeis''"
    | (ram) "\<not> skipped dev inc fld" "fld \<noteq> ''device_imeis''" "fld = ''installed_ram''"
        "is_desktop dev"
    | (exact) "\<not> skipped dev inc fld" "fld \<noteq> ''device_imeis''"
        "\<not> (fld = ''installed_ram'' \<and> is_desktop dev)"
    by blast
  then show ?thesis
  proof cases
    case skip
    then show ?thesis using assms by (simp add: compare_field_skipped)
  next
    case imei
    let ?reg = "dict_get d fld" and ?cur = "dict_get inc fld"
    obtain ok w where c: "compare_imei_lists S ?reg ?cur = Inr (ok, w)"
      using assms unfolding compare_field_imei [OF imei]
      by (cases "compare_imei_lists S ?reg ?cur") auto
    show ?thesis
    proof (cases ok)
      case False
      then have "st' = record_mismatch st fld (calculate_severity fld)
                         (get_mismatch_reason fld) ?reg ?cur"
        using assms c unfolding compare_field_imei [OF imei] by simp
      then show ?thesis using sev by blast
    next
      case True
      then have "st' = record_detail st fld (matched_detail ''matched'' ?reg ?cur) \<or>
        (\<exists>x. st' = record_detail st fld
           ((matched_detail ''matched_with_warning'' ?reg ?cur) \<lparr>warning := Some x\<rparr>))"
        using assms c unfolding compare_field_imei [OF imei]
        by (cases w) (auto split: if_splits)
      moreover have "status (matched_detail ''matched'' ?reg ?cur) \<noteq> ''mismatch''"
        "\<And>x. status ((matched_detail ''matched_with_warning'' ?reg ?cur)
                  \<lparr>warning := Some x\<rparr>) \<noteq> ''mismatch''"
        by (simp_all add: matched_detail_def)
      ultimately show ?thesis by blast
    qed
  next
    case ram
    let ?reg = "dict_get d fld" and ?cur = "dict_get inc fld"
    obtain ok r where c: "compare_ram_with_tolerance S ?reg ?cur = (ok, r)"
      by (cases "compare_ram_with_tolerance S ?reg ?cur") auto
    show ?thesis
    proof (cases ok)
      case False
      then have "\<exists>rsn. st' = record_mismatch st fld ''high'' rsn ?reg ?cur"
        using assms c unfolding compare_field_ram [OF ram] by auto
      then show ?thesis by blast
    next
      case True
      then have "st' = record_detail st fld (matched_detail ''matched'' ?reg ?cur)"
        using assms c unfolding compare_field_ram [OF ram] by simp
      moreover have "status (matched_detail ''matched'' ?reg ?cur) \<noteq> ''mismatch''"
        by (simp add: matched_detail_def)
      ultimately show ?thesis by blast
    qed
  next
    case exact
    let ?reg = "dict_get d fld" and ?cur = "dict_get inc fld"
    have "st' = record_detail st fld (matched_detail ''matched'' ?reg ?cur) \<or>
          st' = record_detail st fld (matched_detail ''both_empty'' ?reg ?cur) \<or>
          st' = record_mismatch st fld (calculate_severity fld) (get_mismatch_reason fld)
                  ?reg ?cur"
      using assms unfolding compare_field_exact [OF exact] by (auto split: if_splits)
    moreover have "status (matched_detail ''matched'' ?reg ?cur) \<noteq> ''mismatch''"
      "status (matched_detail ''both_empty'' ?reg ?cur) \<noteq> ''mismatch''"
      by (simp_all add: matched_detail_def)
    ultimately show ?thesis using sev by blast
  qed
qed

lemma counted_initial: "counted initial_state"
  by (simp add: counted_def initial_state_def)

lemma counted_step:
  assumes "compare_field S dev d inc st fld = Inr st'" "counted st"
  shows "counted st'"
  using compare_field_result [OF assms(1)] assms(2)
  by (auto simp: counted_def record_detail_def record_mismatch_def)

lemma counted_loop:
  "compare_fields S dev d inc st flds = Inr st' \<Longrightarrow> counted st \<Longrightarrow> counted st'"
proof (induction flds arbitrary: st)
  case Nil
  then show ?case by simp
next
  case (Cons f flds)
  then show ?case by (auto split: sum.splits dest: counted_step)
qed

lemma counted_total:
  assumes "counted st"
  shows "ls_high st + ls_medium st = length (ls_mismatches st)"
proof -
  have "length (filter (\<lambda>m. severity m = ''high'') ms) +
        length (filter (\<lambda>m. severity m = ''medium'') ms) = length ms"
    if "list_all (\<lambda>m. severity m = ''high'' \<or> severity m = ''medium'') ms" for ms :: "mismatch list"
    using that by (induction ms) auto
  then show ?thesis using assms by (simp add: counted_def)
qed

text \<open>What a comparison returns: one of the two early results, or the result of the loop.\<close>

lemma compare_heartbeat_result:
  assumes "compare_heartbeat_with_registration S dev inc = Inr res"
  shows "res = skipped_comparison ''not_established'' \<or>
         res = skipped_comparison ''empty_baseline'' \<or>
         (\<exists>d st. get_registration_baseline dev = PDict d \<and> has_baseline_data d \<and>
            compare_fields S dev d inc initial_state HEARTBEAT_TRACKED_FIELDS = Inr st \<and>
            res = finish_comparison st)"
  using assms unfolding compare_heartbeat_with_registration_def Let_def
  by (auto split: if_splits pyval.splits sum.splits)

lemma compare_imei_lists_error: "compare_imei_lists S r c = Inl e \<Longrightarrow> e = TypeError"
  unfolding compare_imei_lists_def Let_def
  by (cases r; cases c) (auto split: if_splits)

lemma compare_field_error:
  assumes "compare_field S dev d inc st fld = Inl e"
  shows "fld = ''device_imeis'' \<and> \<not> skipped dev inc fld \<and> e = TypeError"
proof -
  consider (skip) "skipped dev inc fld"
    | (imei) "\<not> skipped dev inc fld" "fld = ''device_imeis''"
    | (ram) "\<not> skipped dev inc fld" "fld \<noteq> ''device_imeis''" "fld = ''installed_ram''"
        "is_desktop dev"
    | (exact) "\<not> skipped dev inc fld" "fld \<noteq> ''device_imeis''"
        "\<not> (fld = ''installed_ram'' \<and> is_desktop dev)"
    by blast
  then show ?thesis
  proof cases
    case skip
    then show ?thesis using assms by (simp add: compare_field_skipped)
  next
    case imei
    have "compare_imei_lists S (dict_get d fld) (dict_get inc fld) = Inl e"
      using assms unfolding compare_field_imei [OF imei]
      by (auto split: sum.splits prod.splits option.splits if_splits)
    then show ?thesis using imei compare_imei_lists_error by blast
  next
    case ram
    show ?thesis
      using assms unfolding compare_field_ram [OF ram]
      by (auto split: prod.splits if_splits)
  next
    case exact
    show ?thesis
      using assms unfolding compare_field_exact [OF exact]
      by (auto split: if_splits)
  qed
qed

lemma compare_fields_error:
  "compare_fields S dev d inc st flds = Inl e \<Longrightarrow>
   \<not> skipped dev inc ''device_imeis'' \<and> e = TypeError"
proof (induction flds arbitrary: st)
  case Nil
  then show ?case by simp
next
  case (Cons f flds)
  show ?case
  proof (cases "compare_field S dev d inc st f")
    case (Inl e')
    then have "e' = e" using Cons.prems by simp
    moreover from compare_field_error [OF Inl]
    have "f = ''device_imeis''" "\<not> skipped dev inc f" "e' = TypeError" by blast+
    ultimately show ?thesis by simp
  next
    case (Inr st')
    then have "compare_fields S dev d inc st' flds = Inl e" using Cons.prems by simp
    then show ?thesis by (rule Cons.IH)
  qed
qed

text \<open>A field that the loop passes over, or never visits, enters neither list.\<close>

lemma fields_step:
  assumes "compare_field S dev d inc st fld = Inr st'" "f \<noteq> fld \<or> skipped dev inc fld"
    "f \<notin> field ` set (ls_mismatches st)" "f \<notin> fst ` set (ls_details st)"
  shows "f \<notin> field ` set (ls_mismatches st') \<and> f \<notin> fst ` set (ls_details st')"
proof (cases "skipped dev inc fld")
  case True
  then have "st' = st" using assms(1) by (simp add: compare_field_skipped)
  then show ?thesis using assms(3,4) by simp
next
  case False
  then have ne: "f \<noteq> fld" using assms(2) by blast
  from compare_field_result [OF assms(1)]
  consider "st' = st" | dt where "st' = record_detail st fld dt"
    | sev rsn reg cur where "st' = record_mismatch st fld sev rsn reg cur"
    by blast
  then show ?thesis
  proof cases
    case 1
    then show ?thesis using assms(3,4) by simp
  next
    case 2
    then show ?thesis using assms(3,4) ne by (auto simp: record_detail_def dom_update)
  next
    case 3
    then show ?thesis using assms(3,4) ne by (auto simp: record_mismatch_def dom_update)
  qed
qed

lemma fields_loop:
  "compare_fields S dev d inc st flds = Inr st' \<Longrightarrow>
   \<forall>fld \<in> set flds. f \<noteq> fld \<or> skipped dev inc fld \<Longrightarrow>
   f \<notin> field ` set (ls_mismatches st) \<Longrightarrow> f \<notin> fst ` set (ls_details st) \<Longrightarrow>
   f \<notin> field ` set (ls_mismatches st') \<and> f \<notin> fst ` set (ls_details st')"
proof (induction flds arbitrary: st)
  case Nil
  then show ?case by simp
next
  case (Cons g flds)
  from Cons.prems(1) obtain st1 where
    1: "compare_field S dev d inc st g = Inr st1" and
    2: "compare_fields S dev d inc st1 flds = Inr st'"
    by (auto split: sum.splits)
  have "f \<noteq> g \<or> skipped dev inc g" using Cons.prems(2) by simp
  from fields_step [OF 1 this Cons.prems(3,4)]
  have "f \<notin> field ` set (ls_mismatches st1)" "f \<notin> fst ` set (ls_details st1)" by blast+
  moreover have "\<forall>fld \<in> set flds. f \<noteq> fld \<or> skipped dev inc fld" using Cons.prems(2) by simp
  ultimately show ?case using Cons.IH [OF 2] by blast
qed

lemma finish_fields:
  "mismatches (finish_comparison st) = ls_mismatches st"
  "comparison_details (finish_comparison st) = ls_details st"
  "high_severity_count (finish_comparison st) = ls_high st"
  "medium_severity_count (finish_comparison st) = ls_medium st"
  "total_mismatches (finish_comparison st) = length (ls_mismatches st)"
  "should_auto_lock (finish_comparison st) = (0 < ls_high st)"
  by (simp_all add: finish_comparison_def Let_def)

lemma skipped_fields:
  "mismatches (skipped_comparison s) = []"
  "comparison_details (skipped_comparison s) = []"
  "high_severity_count (skipped_comparison s) = 0"
  "medium_severity_count (skipped_comparison s) = 0"
  "total_mismatches (skipped_comparison s) = 0"
  "should_auto_lock (skipped_comparison s) = False"
  "lock_reason (skipped_comparison s) = None"
  "baseline_status (skipped_comparison s) = Some s"
  by (simp_all add: skipped_comparison_def)

subsection \<open>Device-type gating\<close>

lemma desktop_skipped:
  assumes "is_desktop dev"
    "f \<in> {''device_imeis'', ''is_device_rooted'', ''is_usb_debugging_enabled'',
          ''is_developer_mode_enabled'', ''is_bootloader_unlocked'', ''serial_number'',
          ''total_storage'', ''is_custom_rom''}"
  shows "skipped dev inc f"
  using assms unfolding skipped_def MOBILE_ONLY_FIELDS_def DESKTOP_SKIP_FIELDS_def by auto

lemma desktop_result_fields:
  assumes "is_desktop dev" "compare_heartbeat_with_registration S dev inc = Inr res"
    "f \<in> {''device_imeis'', ''is_device_rooted'', ''is_usb_debugging_enabled'',
          ''is_developer_mode_enabled'', ''is_bootloader_unlocked'', ''serial_number'',
          ''total_storage'', ''is_custom_rom''}"
  shows "f \<notin> field ` set (mismatches res) \<and> f \<notin> fst ` set (comparison_details res)"
proof -
  have sk: "skipped dev inc f" using assms(1,3) by (rule desktop_skipped)
  from compare_heartbeat_result [OF assms(2)]
  consider "res = skipped_comparison ''not_established''"
    | "res = skipped_comparison ''empty_baseline''"
    | d st where "compare_fields S dev d inc initial_state HEARTBEAT_TRACKED_FIELDS = Inr st"
        "res = finish_comparison st"
    by blast
  then show ?thesis
  proof cases
    case 1
    then show ?thesis by (simp add: skipped_fields)
  next
    case 2
    then show ?thesis by (simp add: skipped_fields)
  next
    case 3
    have "f \<notin> field ` set (ls_mismatches st) \<and> f \<notin> fst ` set (ls_details st)"
      by (rule fields_loop [OF 3(1)]) (use sk in \<open>auto simp: initial_state_def\<close>)
    then show ?thesis using 3(2) by (simp add: finish_fields)
  qed
qed

lemma desktop_no_type_error:
  assumes "is_desktop dev"
  shows "compare_heartbeat_with_registration S dev inc \<noteq> Inl TypeError"
proof
  assume e: "compare_heartbeat_with_registration S dev inc = Inl TypeError"
  have "skipped dev inc ''device_imeis''" by (rule desktop_skipped [OF assms]) simp
  moreover from e obtain d where
    "compare_fields S dev d inc initial_state HEARTBEAT_TRACKED_FIELDS = Inl TypeError"
    unfolding compare_heartbeat_with_registration_def Let_def
    by (auto split: if_splits pyval.splits sum.splits)
  ultimately show False using compare_fields_error by blast
qed

text \<open>
  Claim C7. On a device whose \<^verbatim>\<open>device_type\<close> is \<^verbatim>\<open>desktop\<close> or \<^verbatim>\<open>laptop\<close>, whatever the
  heartbeat and the baseline hold, a comparison that returns has no mismatch entry and no
  \<^verbatim>\<open>comparison_details\<close> entry for \<^verbatim>\<open>device_imeis\<close>, \<^verbatim>\<open>is_device_rooted\<close>,
  \<^verbatim>\<open>is_usb_debugging_enabled\<close>, \<^verbatim>\<open>is_developer_mode_enabled\<close>, \<^verbatim>\<open>is_bootloader_unlocked\<close>,
  \<^verbatim>\<open>serial_number\<close>, \<^verbatim>\<open>total_storage\<close> or \<^verbatim>\<open>is_custom_rom\<close>; and the IMEI comparator, the
  one place that can raise \<^verbatim>\<open>TypeError\<close>, is never reached.
\<close>

theorem desktop_field_gating:
  "device_type dev = ''desktop'' \<or> device_type dev = ''laptop'' \<longrightarrow>
   compare_heartbeat_with_registration S dev inc \<noteq> Inl TypeError \<and>
   (\<forall>res. compare_heartbeat_with_registration S dev inc = Inr res \<longrightarrow>
      (\<forall>f \<in> {''device_imeis'', ''is_device_rooted'', ''is_usb_debugging_enabled'',
               ''is_developer_mode_enabled'', ''is_bootloader_unlocked'', ''serial_number'',
               ''total_storage'', ''is_custom_rom''}.
         f \<notin> field ` set (mismatches res) \<and> f \<notin> fst ` set (comparison_details res)))"
proof
  assume "device_type dev = ''desktop'' \<or> device_type dev = ''laptop''"
  then have d: "is_desktop dev" by (auto simp: is_desktop_def)
  show "compare_heartbeat_with_registration S dev inc \<noteq> Inl TypeError \<and>
   (\<forall>res. compare_heartbeat_with_registration S dev inc = Inr res \<longrightarrow>
      (\<forall>f \<in> {''device_imeis'', ''is_device_rooted'', ''is_usb_debugging_enabled'',
               ''is_developer_mode_enabled'', ''is_bootloader_unlocked'', ''serial_number'',
               ''total_storage'', ''is_custom_rom''}.
         f \<notin> field ` set (mismatches res) \<and> f \<notin> fst ` set (comparison_details res)))"
  proof (intro conjI allI impI ballI)
    show "compare_heartbeat_with_registration S dev inc \<noteq> Inl TypeError"
      by (rule desktop_no_type_error [OF d])
  next
    fix res f
    assume r: "compare_heartbeat_with_registration S dev inc = Inr res"
      and f: "f \<in> {''device_imeis'', ''is_device_rooted'', ''is_usb_debugging_enabled'',
               ''is_developer_mode_enabled'', ''is_bootloader_unlocked'', ''serial_number'',
               ''total_storage'', ''is_custom_rom''}"
    show "f \<notin> field ` set (mismatches res)"
      using desktop_result_fields [OF d r f] by (rule conjunct1)
    show "f \<notin> fst ` set (comparison_details res)"
      using desktop_result_fields [OF d r f] by (rule conjunct2)
  qed
qed

theorem desktop_field_gating_witness:
  "device_type desktop = ''desktop'' \<and>
   compare_heartbeat_with_registration str_scalar desktop
     [(''device_imeis'', PList [PStr ''999999999999999'']), (''serial_number'', PStr ''OTHER''),
      (''is_device_rooted'', PBool True)]
     = Inr (finish_comparison initial_state) \<and>
   ''device_imeis'' \<notin> field ` set (mismatches (finish_comparison initial_state)) \<and>
   ''device_imeis'' \<notin> fst ` set (comparison_details (finish_comparison initial_state))"
proof -
  have t: "device_type desktop = ''desktop''" by (simp add: desktop_def)
  have e: "compare_heartbeat_with_registration str_scalar desktop
     [(''device_imeis'', PList [PStr ''999999999999999'']), (''serial_number'', PStr ''OTHER''),
      (''is_device_rooted'', PBool True)]
     = Inr (finish_comparison initial_state)"
    by code_simp
  have m: "''device_imeis'' \<in> {''device_imeis'', ''is_device_rooted'',
      ''is_usb_debugging_enabled'', ''is_developer_mode_enabled'', ''is_bootloader_unlocked'',
      ''serial_number'', ''total_storage'', ''is_custom_rom''}"
    by simp
  note g = desktop_field_gating [of desktop str_scalar
      "[(''device_imeis'', PList [PStr ''999999999999999'']), (''serial_number'', PStr ''OTHER''),
        (''is_device_rooted'', PBool True)]", THEN mp, OF disjI1, OF t, THEN conjunct2,
      THEN spec, THEN mp, OF e, THEN bspec, OF m]
  show ?thesis
    by (intro conjI t e g [THEN conjunct1] g [THEN conjunct2])
qed

subsection \<open>The counting invariant\<close>

lemma result_counted:
  assumes "compare_heartbeat_with_registration S dev inc = Inr res"
  shows "high_severity_count res = length (filter (\<lambda>m. severity m = ''high'') (mismatches res)) \<and>
     medium_severity_count res = length (filter (\<lambda>m. severity m = ''medium'') (mismatches res)) \<and>
     list_all (\<lambda>m. severity m = ''high'' \<or> severity m = ''medium'') (mismatches res) \<and>
     total_mismatches res = length (mismatches res) \<and>
     high_severity_count res + medium_severity_count res = total_mismatches res"
proof -
  from compare_heartbeat_result [OF assms]
  consider "res = skipped_comparison ''not_established''"
    | "res = skipped_comparison ''empty_baseline''"
    | d st where "compare_fields S dev d inc initial_state HEARTBEAT_TRACKED_FIELDS = Inr st"
        "res = finish_comparison st"
    by blast
  then show ?thesis
  proof cases
    case 1
    then show ?thesis by (simp add: skipped_fields)
  next
    case 2
    then show ?thesis by (simp add: skipped_fields)
  next
    case 3
    have c: "counted st" using counted_loop [OF 3(1) counted_initial] .
    then show ?thesis
      using counted_total [OF c] unfolding 3(2) finish_fields by (simp add: counted_def)
  qed
qed

text \<open>
  Claim C9. Every comparison result satisfies the counting invariant: the two severity
  counts add up to \<^verbatim>\<open>total_mismatches\<close>, which is the length of the list of mismatches;
  each count is the number of entries of its severity; every entry's severity is
  \<^verbatim>\<open>high\<close> or \<^verbatim>\<open>medium\<close>. The severity classifier is total, with value \<^verbatim>\<open>high\<close> or
  \<^verbatim>\<open>medium\<close>, and a field outside both severity sets is \<^verbatim>\<open>medium\<close>.
\<close>

theorem counting_invariant:
  "(compare_heartbeat_with_registration S dev inc = Inr res \<longrightarrow>
      high_severity_count res + medium_severity_count res = total_mismatches res \<and>
      total_mismatches res = length (mismatches res) \<and>
      high_severity_count res = length (filter (\<lambda>m. severity m = ''high'') (mismatches res)) \<and>
      medium_severity_count res = length (filter (\<lambda>m. severity m = ''medium'') (mismatches res)) \<and>
      (\<forall>m \<in> set (mismatches res). severity m = ''high'' \<or> severity m = ''medium'')) \<and>
   (calculate_severity f = ''high'' \<or> calculate_severity f = ''medium'') \<and>
   (f \<notin> set HIGH_SEVERITY_FIELDS \<union> set MEDIUM_SEVERITY_FIELDS \<longrightarrow>
      calculate_severity f = ''medium'')"
proof -
  have "calculate_severity f = ''medium''"
    if "f \<notin> set HIGH_SEVERITY_FIELDS \<union> set MEDIUM_SEVERITY_FIELDS"
    using that by (simp add: calculate_severity_def)
  then show ?thesis
    using result_counted [of S dev inc res] calculate_severity_cases [of f]
    by (auto simp: list_all_iff)
qed

theorem counting_invariant_witness:
  "compare_heartbeat_with_registration str_scalar phone tampered_heartbeat = Inr tampered_result \<and>
   high_severity_count tampered_result + medium_severity_count tampered_result =
     total_mismatches tampered_result \<and>
   total_mismatches tampered_result = length (mismatches tampered_result)"
proof -
  have e: "compare_heartbeat_with_registration str_scalar phone tampered_heartbeat =
      Inr tampered_result"
    by code_simp
  note g = counting_invariant [of str_scalar phone tampered_heartbeat tampered_result
      "''serial_number''", THEN conjunct1, THEN mp, OF e]
  show ?thesis
    by (intro conjI e g [THEN conjunct1] g [THEN conjunct2, THEN conjunct1])
qed

subsection \<open>A baseline that is absent or empty\<close>

lemma baseline_absent:
  assumes "find (\<lambda>h. action h = ''create'') (history dev) = None \<or>
     (\<exists>entry. find (\<lambda>h. action h = ''create'') (history dev) = Some entry \<and>
        \<not> truthy (new_values entry))"
  shows "compare_heartbeat_with_registration S dev inc =
     Inr (skipped_comparison ''not_established'')"
proof -
  have "get_registration_baseline dev = PDict []"
    using assms by (auto simp: get_registration_baseline_def)
  then show ?thesis by (simp add: compare_heartbeat_with_registration_def)
qed

lemma empty_value_cases:
  "v = PNone \<or> v = PStr [] \<or> v = PList [] \<Longrightarrow>
   \<not> (v \<noteq> PNone \<and> \<not> py_eq v (PStr []) \<and> \<not> py_eq v (PList []))"
  by auto

lemma baseline_empty:
  assumes "get_registration_baseline dev = PDict d" "d \<noteq> []"
    "\<forall>v \<in> set (dict_values d). v = PNone \<or> v = PStr [] \<or> v = PList []"
  shows "compare_heartbeat_with_registration S dev inc =
     Inr (skipped_comparison ''empty_baseline'')"
proof -
  have "\<not> has_baseline_data d"
    unfolding has_baseline_data_def list_ex_iff using assms(3) empty_value_cases by blast
  then show ?thesis
    using assms(1,2) by (simp add: compare_heartbeat_with_registration_def)
qed

text \<open>
  Claim C2. Whatever the heartbeat holds: when the history has no \<^verbatim>\<open>create\<close> entry, or
  the entry's \<^verbatim>\<open>new_values\<close> is empty, the comparison returns the result of status
  \<^verbatim>\<open>not_established\<close>; when the baseline is a non-empty mapping whose values are all
  \<^verbatim>\<open>None\<close>, the empty string or the empty list, it returns the result of status
  \<^verbatim>\<open>empty_baseline\<close>. Both results have no mismatch, zero counts, no auto-lock, no lock
  reason, and no per-field detail: no field was compared.
\<close>

theorem empty_baseline_never_flags:
  "(find (\<lambda>h. action h = ''create'') (history dev) = None \<or>
    (\<exists>entry. find (\<lambda>h. action h = ''create'') (history dev) = Some entry \<and>
       \<not> truthy (new_values entry)) \<longrightarrow>
    compare_heartbeat_with_registration S dev inc =
      Inr (skipped_comparison ''not_established'')) \<and>
   (get_registration_baseline dev = PDict d \<and> d \<noteq> [] \<and>
    (\<forall>v \<in> set (dict_values d). v = PNone \<or> v = PStr [] \<or> v = PList []) \<longrightarrow>
    compare_heartbeat_with_registration S dev inc =
      Inr (skipped_comparison ''empty_baseline'')) \<and>
   skipped_comparison st =
     \<lparr>mismatches = [], high_severity_count = 0, medium_severity_count = 0,
      total_mismatches = 0, should_auto_lock = False, lock_reason = None,
      comparison_details = [], baseline_status = Some st\<rparr>"
  using baseline_absent [of dev S inc] baseline_empty [of dev d S inc]
  by (simp only: skipped_comparison_def simp_thms) blast

theorem empty_baseline_never_flags_witness:
  "find (\<lambda>h. action h = ''create'') (history unregistered) = None \<and>
   compare_heartbeat_with_registration str_scalar unregistered
     [(''serial_number'', PStr ''SN999'')] = Inr (skipped_comparison ''not_established'') \<and>
   get_registration_baseline placeholder = PDict placeholder_baseline \<and>
   placeholder_baseline \<noteq> [] \<and>
   set (dict_values placeholder_baseline) = {PStr [], PList [], PNone} \<and>
   compare_heartbeat_with_registration str_scalar placeholder
     [(''serial_number'', PStr ''SN999'')] = Inr (skipped_comparison ''empty_baseline'')"
proof -
  have 1: "find (\<lambda>h. action h = ''create'') (history unregistered) = None"
    by (simp add: unregistered_def)
  have 2: "get_registration_baseline placeholder = PDict placeholder_baseline"
    by (simp add: get_registration_baseline_def placeholder_def placeholder_baseline_def)
  have 3: "placeholder_baseline \<noteq> []" by (simp add: placeholder_baseline_def)
  have 4: "set (dict_values placeholder_baseline) = {PStr [], PList [], PNone}"
    by code_simp
  have 5: "\<forall>v \<in> set (dict_values placeholder_baseline). v = PNone \<or> v = PStr [] \<or> v = PList []"
    unfolding 4 by simp
  note g = empty_baseline_never_flags [of unregistered str_scalar
      "[(''serial_number'', PStr ''SN999'')]" placeholder_baseline "''x''"]
  note h = empty_baseline_never_flags [of placeholder str_scalar
      "[(''serial_number'', PStr ''SN999'')]" placeholder_baseline "''x''"]
  have a: "compare_heartbeat_with_registration str_scalar unregistered
     [(''serial_number'', PStr ''SN999'')] = Inr (skipped_comparison ''not_established'')"
    using g [THEN conjunct1] 1 by blast
  have b: "compare_heartbeat_with_registration str_scalar placeholder
     [(''serial_number'', PStr ''SN999'')] = Inr (skipped_comparison ''empty_baseline'')"
    using h [THEN conjunct2, THEN conjunct1] 2 3 5 by blast
  show ?thesis by (intro conjI 1 a 2 3 4 b)
qed

subsection \<open>The RAM comparator\<close>

lemma floor_rat_numeral: "\<lfloor>(numeral a :: rat) / numeral b\<rfloor> = numeral a div numeral b"
  using floor_divide_of_int_eq [of "numeral a" "numeral b", where ?'a = rat] by simp

lemma ceiling_rat_numeral:
  "\<lceil>(numeral a :: rat) / numeral b\<rceil> = - ((- numeral a) div numeral b)"
  using floor_divide_of_int_eq [of "- numeral a" "numeral b", where ?'a = rat]
  by (simp add: ceiling_def)

lemmas float_eval = round_binary64_def ilog2_def pow2_def round_half_even_def Let_def
  floor_rat_numeral ceiling_rat_numeral

lemma bit_length_values:
  "bit_length 16 = 5" "bit_length 15 = 4" "bit_length 14 = 4" "bit_length 8 = 4"
  "bit_length 7 = 3" "bit_length 6 = 3"
  by code_simp+

lemma round_values:
  "round_binary64 16 = Fin 16"
  "round_binary64 15 = Fin 15"
  "round_binary64 (149 / 10) = Fin (8387954305977549 / 562949953421312)"
  "round_binary64 8 = Fin 8"
  "round_binary64 7 = Fin 7"
  "round_binary64 (15 / 2) = Fin (15 / 2)"
  "round_binary64 (69 / 10) = Fin (3884354678607053 / 562949953421312)"
  by (simp_all add: float_eval bit_length_values)







lemma extract_truthy: "extract_ram_gb v = Some x \<Longrightarrow> truthy v"
  by (cases v) (auto simp: extract_ram_gb_def split: option.splits)

lemma ram_mismatch_iff:
  "fst (compare_ram_with_tolerance S r c) = False \<longleftrightarrow>
     (\<exists>rg cg. extract_ram_gb r = Some rg \<and> extract_ram_gb c = Some cg \<and>
        float_less cg (float_sub_one rg))"
proof (cases "extract_ram_gb r")
  case None
  then show ?thesis by (simp add: compare_ram_with_tolerance_def)
next
  case r: (Some rg)
  show ?thesis
  proof (cases "extract_ram_gb c")
    case None
    then show ?thesis using r by (simp add: compare_ram_with_tolerance_def)
  next
    case c: (Some cg)
    have "truthy r" "truthy c" using r c by (auto dest: extract_truthy)
    then show ?thesis using r c by (simp add: compare_ram_with_tolerance_def Let_def)
  qed
qed

lemma ram_unparsed:
  "extract_ram_gb r = None \<or> extract_ram_gb c = None \<Longrightarrow>
   compare_ram_with_tolerance S r c = (True, None)"
  by (auto simp: compare_ram_with_tolerance_def split: option.splits)

lemma ram_parsed:
  assumes "extract_ram_gb r = Some rg" "extract_ram_gb c = Some cg"
  shows "compare_ram_with_tolerance S r c =
    (if float_less cg (float_sub_one rg)
     then (False, Some (ram_reason S rg cg (float_sub_one rg))) else (True, None))"
proof -
  have "truthy r" "truthy c" using assms by (auto dest: extract_truthy)
  then show ?thesis using assms by (simp add: compare_ram_with_tolerance_def Let_def)
qed

lemma ram_reason_nonempty: "ram_reason S a b c \<noteq> []"
  by (simp add: ram_reason_def)

lemma desktop_ram_not_skipped:
  assumes "is_desktop dev" "dict_has inc ''installed_ram''"
  shows "\<not> skipped dev inc ''installed_ram''"
  using assms by (simp add: skipped_def MOBILE_ONLY_FIELDS_def DESKTOP_SKIP_FIELDS_def)

lemma desktop_ram_step:
  assumes "is_desktop dev" "dict_has inc ''installed_ram''"
    "extract_ram_gb (dict_get d ''installed_ram'') = Some rg"
    "extract_ram_gb (dict_get inc ''installed_ram'') = Some cg"
  shows "compare_field S dev d inc st ''installed_ram'' =
    Inr (if float_less cg (float_sub_one rg)
         then record_mismatch st ''installed_ram'' ''high''
                (ram_reason S rg cg (float_sub_one rg))
                (dict_get d ''installed_ram'') (dict_get inc ''installed_ram'')
         else record_detail st ''installed_ram''
                (matched_detail ''matched'' (dict_get d ''installed_ram'')
                   (dict_get inc ''installed_ram'')))"
proof -
  have ne: "''installed_ram'' \<noteq> ''device_imeis''" by simp
  note eq = compare_field_ram [OF desktop_ram_not_skipped [OF assms(1,2)] ne refl assms(1),
      of S d st]
  show ?thesis
    unfolding eq ram_parsed [OF assms(3,4)]
    by (simp add: ram_reason_nonempty)
qed




subsection \<open>The reason of a RAM mismatch\<close>

lemma str_scalar_values:
  "str_scalar (PFloat (Fin 16)) = ''16.0''"
  "str_scalar (PFloat (Fin 8)) = ''8.0''"
  "str_scalar (PFloat (Fin 15)) = ''15.0''"
proof -
  have n: "str_of_nat 16 = ''16''" "str_of_nat 8 = ''8''" "str_of_nat 15 = ''15''"
    by code_simp+
  show "str_scalar (PFloat (Fin 16)) = ''16.0''" "str_scalar (PFloat (Fin 8)) = ''8.0''"
    "str_scalar (PFloat (Fin 15)) = ''15.0''"
    by (simp_all add: str_of_int_def n del: str_of_nat.simps)
qed

lemma workstation_extract:
  "extract_ram_gb (PStr ''16.0GB'') = Some (Fin 16)"
  "extract_ram_gb (PStr ''8.0GB'') = Some (Fin 8)"
proof -
  have s: "re_search ''16.0GB'' = Some (''16'', ''0'')" "re_search ''8.0GB'' = Some (''8'', ''0'')"
    by code_simp+
  have d: "digits_value ''160'' = 160" "digits_value ''80'' = 80" by code_simp+
  show "extract_ram_gb (PStr ''16.0GB'') = Some (Fin 16)"
    "extract_ram_gb (PStr ''8.0GB'') = Some (Fin 8)"
    by (simp_all add: extract_ram_gb_def s decimal_value_def d round_values
        del: re_search.simps)
qed

lemma workstation_step:
  "compare_field str_scalar workstation workstation_baseline halved_ram_heartbeat st
     ''installed_ram'' =
   Inr (record_mismatch st ''installed_ram'' ''high'' halved_ram_reason
          (PStr ''16.0GB'') (PStr ''8.0GB''))"
proof -
  have 1: "is_desktop workstation" by (simp add: is_desktop_def workstation_def)
  have 2: "dict_has halved_ram_heartbeat ''installed_ram''"
    by (simp add: dict_has_def halved_ram_heartbeat_def)
  have 3: "dict_get workstation_baseline ''installed_ram'' = PStr ''16.0GB''"
    by (simp add: dict_get_def workstation_baseline_def)
  have 4: "dict_get halved_ram_heartbeat ''installed_ram'' = PStr ''8.0GB''"
    by (simp add: dict_get_def halved_ram_heartbeat_def)
  have 5: "float_sub_one (Fin 16) = Fin 15" by (simp add: round_values)
  have 6: "ram_reason str_scalar (Fin 16) (Fin 8) (Fin 15) = halved_ram_reason"
    by (simp add: ram_reason_def str_scalar_values halved_ram_reason_def
        del: str_scalar.simps)
  have "compare_field str_scalar workstation workstation_baseline halved_ram_heartbeat st
     ''installed_ram'' =
    Inr (if float_less (Fin 8) (float_sub_one (Fin 16))
         then record_mismatch st ''installed_ram'' ''high''
                (ram_reason str_scalar (Fin 16) (Fin 8) (float_sub_one (Fin 16)))
                (dict_get workstation_baseline ''installed_ram'')
                (dict_get halved_ram_heartbeat ''installed_ram'')
         else record_detail st ''installed_ram''
                (matched_detail ''matched'' (dict_get workstation_baseline ''installed_ram'')
                   (dict_get halved_ram_heartbeat ''installed_ram'')))"
    by (rule desktop_ram_step [OF 1 2]) (simp_all only: 3 4 workstation_extract)
  then show ?thesis by (simp only: 3 4 5 6 float_less.simps) simp
qed

lemma only_ram_skipped:
  "f \<noteq> ''installed_ram'' \<Longrightarrow> skipped dev halved_ram_heartbeat f"
  by (simp add: skipped_def dict_has_def halved_ram_heartbeat_def)

lemma workstation_loop:
  "compare_fields str_scalar workstation workstation_baseline halved_ram_heartbeat
     initial_state HEARTBEAT_TRACKED_FIELDS =
   Inr (record_mismatch initial_state ''installed_ram'' ''high'' halved_ram_reason
          (PStr ''16.0GB'') (PStr ''8.0GB''))"
  unfolding HEARTBEAT_TRACKED_FIELDS_def
  by (simp add: compare_field_skipped only_ram_skipped workstation_step)

lemma workstation_comparison:
  "compare_heartbeat_with_registration str_scalar workstation halved_ram_heartbeat =
   Inr \<lparr>mismatches =
          [\<lparr>field = ''installed_ram'', severity = ''high'', reason = halved_ram_reason\<rparr>],
        high_severity_count = 1, medium_severity_count = 0, total_mismatches = 1,
        should_auto_lock = True,
        lock_reason = Some ''Device security compromised: installed_ram'',
        comparison_details =
          [(''installed_ram'',
            mismatch_detail ''high'' (PStr ''16.0GB'') (PStr ''8.0GB'') halved_ram_reason)],
        baseline_status = None\<rparr>"
proof -
  have 1: "get_registration_baseline workstation = PDict workstation_baseline"
    by (simp add: get_registration_baseline_def workstation_def workstation_baseline_def)
  have 2: "has_baseline_data workstation_baseline"
    by (simp add: has_baseline_data_def dict_values_def workstation_baseline_def clearjunk.simps)
  have 3: "workstation_baseline \<noteq> []" by (simp add: workstation_baseline_def)
  have "compare_heartbeat_with_registration str_scalar workstation halved_ram_heartbeat =
    Inr (finish_comparison
           (record_mismatch initial_state ''installed_ram'' ''high'' halved_ram_reason
              (PStr ''16.0GB'') (PStr ''8.0GB'')))"
    unfolding compare_heartbeat_with_registration_def Let_def 1
    by (simp add: 2 3 workstation_loop)
  then show ?thesis
    by (simp add: finish_comparison_def record_mismatch_def initial_state_def)
qed

text \<open>
  Claim C5 at a desktop registered with \<^verbatim>\<open>16.0GB\<close> whose heartbeat reports \<^verbatim>\<open>8.0GB\<close>: the
  reason of the mismatch entry is not the fixed text of \<^verbatim>\<open>_get_mismatch_reason\<close>; it is
  built from the parsed values and contains both the baseline value and the current
  value.
\<close>

theorem ram_reason_exposes_values:
  "(\<exists>res. compare_heartbeat_with_registration str_scalar workstation halved_ram_heartbeat
            = Inr res \<and>
      map field (mismatches res) = [''installed_ram''] \<and>
      map reason (mismatches res) = [halved_ram_reason]) \<and>
   halved_ram_reason \<noteq> get_mismatch_reason ''installed_ram'' \<and>
   dict_get workstation_baseline ''installed_ram'' = PStr ''16.0GB'' \<and>
   str_contains halved_ram_reason ''16.0GB'' \<and>
   dict_get halved_ram_heartbeat ''installed_ram'' = PStr ''8.0GB'' \<and>
   str_contains halved_ram_reason ''8.0GB''"
proof -
  have 1: "halved_ram_reason \<noteq> get_mismatch_reason ''installed_ram''"
    by code_simp
  have 2: "str_contains halved_ram_reason ''16.0GB''" by code_simp
  have 3: "str_contains halved_ram_reason ''8.0GB''" by code_simp
  have 4: "dict_get workstation_baseline ''installed_ram'' = PStr ''16.0GB''"
    by (simp add: dict_get_def workstation_baseline_def)
  have 5: "dict_get halved_ram_heartbeat ''installed_ram'' = PStr ''8.0GB''"
    by (simp add: dict_get_def halved_ram_heartbeat_def)
  have 6: "\<exists>res. compare_heartbeat_with_registration str_scalar workstation halved_ram_heartbeat
            = Inr res \<and>
      map field (mismatches res) = [''installed_ram''] \<and>
      map reason (mismatches res) = [halved_ram_reason]"
    unfolding workstation_comparison by simp
  show ?thesis by (intro conjI 1 2 3 4 5 6)
qed

subsection \<open>A value on one side only\<close>

lemma one_sided_differs:
  assumes "reg = PNone \<or> reg = PStr [] \<or> reg = PList []"
    "truthy (normalize_for_comparison S cur)"
  shows "\<not> py_eq (normalize_for_comparison S reg) (normalize_for_comparison S cur)"
proof -
  have u: "\<not> has_unit []" by (simp add: has_unit_def py_upper_def)
  have n: "normalize_for_comparison S reg = PNone \<or>
      normalize_for_comparison S reg = PStr [] \<or>
      normalize_for_comparison S reg = PTuple []"
    using assms(1) u by (auto simp: py_strip_def)
  show ?thesis
  proof
    assume e: "py_eq (normalize_for_comparison S reg) (normalize_for_comparison S cur)"
    from n e have "normalize_for_comparison S cur = PNone \<or>
      normalize_for_comparison S cur = PStr [] \<or>
      normalize_for_comparison S cur = PTuple []"
      by (cases "normalize_for_comparison S cur") auto
    then show False using assms(2) by auto
  qed
qed

lemma compare_field_one_sided:
  assumes "\<not> skipped dev inc f" "f \<noteq> ''device_imeis''"
    "\<not> (f = ''installed_ram'' \<and> is_desktop dev)"
    "dict_get d f = PNone \<or> dict_get d f = PStr [] \<or> dict_get d f = PList []"
    "truthy (normalize_for_comparison S (dict_get inc f))"
  shows "compare_field S dev d inc st f =
    Inr (record_mismatch st f (calculate_severity f) (get_mismatch_reason f)
           (dict_get d f) (dict_get inc f))"
  unfolding compare_field_exact [OF assms(1-3)]
  using one_sided_differs [OF assms(4,5)] assms(5) by simp

lemma mismatches_step:
  assumes "compare_field S dev d inc st fld = Inr st'"
  shows "set (ls_mismatches st) \<subseteq> set (ls_mismatches st')"
proof -
  from compare_field_result [OF assms]
  consider "st' = st" | dt where "st' = record_detail st fld dt"
    | sev rsn reg cur where "st' = record_mismatch st fld sev rsn reg cur"
    by blast
  then show ?thesis
    by cases (auto simp: record_detail_def record_mismatch_def)
qed

lemma mismatches_loop:
  "compare_fields S dev d inc st flds = Inr st' \<Longrightarrow>
   set (ls_mismatches st) \<subseteq> set (ls_mismatches st')"
proof (induction flds arbitrary: st)
  case Nil
  then show ?case by simp
next
  case (Cons g flds)
  from Cons.prems obtain st1 where
    1: "compare_field S dev d inc st g = Inr st1" and
    2: "compare_fields S dev d inc st1 flds = Inr st'"
    by (auto split: sum.splits)
  show ?case using mismatches_step [OF 1] Cons.IH [OF 2] by blast
qed

lemma one_sided_loop:
  assumes "\<not> skipped dev inc f" "f \<noteq> ''device_imeis''"
    "\<not> (f = ''installed_ram'' \<and> is_desktop dev)"
    "dict_get d f = PNone \<or> dict_get d f = PStr [] \<or> dict_get d f = PList []"
    "truthy (normalize_for_comparison S (dict_get inc f))"
  shows "f \<in> set flds \<Longrightarrow> compare_fields S dev d inc st flds = Inr st' \<Longrightarrow>
    \<lparr>field = f, severity = calculate_severity f, reason = get_mismatch_reason f\<rparr>
      \<in> set (ls_mismatches st')"
proof (induction flds arbitrary: st)
  case Nil
  then show ?case by simp
next
  case (Cons g flds)
  from Cons.prems(2) obtain st1 where
    1: "compare_field S dev d inc st g = Inr st1" and
    2: "compare_fields S dev d inc st1 flds = Inr st'"
    by (auto split: sum.splits)
  show ?case
  proof (cases "g = f")
    case True
    have "st1 = record_mismatch st f (calculate_severity f) (get_mismatch_reason f)
           (dict_get d f) (dict_get inc f)"
      using 1 compare_field_one_sided [OF assms, of st] True by simp
    then have "\<lparr>field = f, severity = calculate_severity f, reason = get_mismatch_reason f\<rparr>
      \<in> set (ls_mismatches st1)"
      by (simp add: record_mismatch_def)
    then show ?thesis using mismatches_loop [OF 2] by blast
  next
    case False
    then have "f \<in> set flds" using Cons.prems(1) by simp
    then show ?thesis using Cons.IH 2 by blast
  qed
qed

text \<open>
  Claim C10, as the code has it. Take a tracked field that reaches the exact-match
  comparator: the heartbeat carries it, the device type does not exclude it, it is not
  \<^verbatim>\<open>device_imeis\<close> and not \<^verbatim>\<open>installed_ram\<close> on a desktop or laptop. When the baseline is
  established and not empty overall, the field is absent or empty (\<^verbatim>\<open>None\<close>, the empty
  string or the empty list) in the baseline, and the incoming value is true after
  normalisation, every result the comparison returns has a mismatch entry for the field,
  with the severity and the reason of the field.
\<close>

theorem one_sided_value_is_mismatch:
  "f \<in> set HEARTBEAT_TRACKED_FIELDS \<and> f \<noteq> ''device_imeis'' \<and>
   \<not> (f = ''installed_ram'' \<and> (device_type dev = ''desktop'' \<or> device_type dev = ''laptop'')) \<and>
   dict_has inc f \<and>
   \<not> ((device_type dev = ''desktop'' \<or> device_type dev = ''laptop'') \<and>
      f \<in> set MOBILE_ONLY_FIELDS \<union> set DESKTOP_SKIP_FIELDS) \<and>
   get_registration_baseline dev = PDict d \<and> has_baseline_data d \<and>
   (dict_get d f = PNone \<or> dict_get d f = PStr [] \<or> dict_get d f = PList []) \<and>
   truthy (normalize_for_comparison S (dict_get inc f)) \<and>
   compare_heartbeat_with_registration S dev inc = Inr res \<longrightarrow>
   \<lparr>field = f, severity = calculate_severity f, reason = get_mismatch_reason f\<rparr>
     \<in> set (mismatches res)"
proof
  assume h: "f \<in> set HEARTBEAT_TRACKED_FIELDS \<and> f \<noteq> ''device_imeis'' \<and>
   \<not> (f = ''installed_ram'' \<and> (device_type dev = ''desktop'' \<or> device_type dev = ''laptop'')) \<and>
   dict_has inc f \<and>
   \<not> ((device_type dev = ''desktop'' \<or> device_type dev = ''laptop'') \<and>
      f \<in> set MOBILE_ONLY_FIELDS \<union> set DESKTOP_SKIP_FIELDS) \<and>
   get_registration_baseline dev = PDict d \<and> has_baseline_data d \<and>
   (dict_get d f = PNone \<or> dict_get d f = PStr [] \<or> dict_get d f = PList []) \<and>
   truthy (normalize_for_comparison S (dict_get inc f)) \<and>
   compare_heartbeat_with_registration S dev inc = Inr res"
  have dk: "is_desktop dev \<longleftrightarrow> device_type dev = ''desktop'' \<or> device_type dev = ''laptop''"
    by (auto simp: is_desktop_def)
  have 1: "\<not> skipped dev inc f" using h unfolding skipped_def dk by blast
  have 2: "f \<noteq> ''device_imeis''" using h by blast
  have 3: "\<not> (f = ''installed_ram'' \<and> is_desktop dev)" using h unfolding dk by blast
  have 4: "dict_get d f = PNone \<or> dict_get d f = PStr [] \<or> dict_get d f = PList []"
    using h by blast
  have 5: "truthy (normalize_for_comparison S (dict_get inc f))" using h by blast
  have 6: "f \<in> set HEARTBEAT_TRACKED_FIELDS" using h by blast
  have b: "get_registration_baseline dev = PDict d" "has_baseline_data d" using h by blast+
  have r: "compare_heartbeat_with_registration S dev inc = Inr res" using h by blast
  have t: "truthy (PDict d)"
    using b(2) by (cases d) (auto simp: has_baseline_data_def dict_values_def)
  obtain st where st: "compare_fields S dev d inc initial_state HEARTBEAT_TRACKED_FIELDS = Inr st"
    "res = finish_comparison st"
    using r t b unfolding compare_heartbeat_with_registration_def Let_def
    by (auto split: sum.splits)
  show "\<lparr>field = f, severity = calculate_severity f, reason = get_mismatch_reason f\<rparr>
     \<in> set (mismatches res)"
    using one_sided_loop [OF 1 2 3 4 5 6 st(1)] st(2) by (simp add: finish_fields)
qed

theorem one_sided_value_is_mismatch_witness:
  "''is_device_rooted'' \<in> set HEARTBEAT_TRACKED_FIELDS \<and>
   dict_has rooted_heartbeat ''is_device_rooted'' \<and>
   get_registration_baseline tablet = PDict tablet_baseline \<and>
   has_baseline_data tablet_baseline \<and>
   dict_get tablet_baseline ''is_device_rooted'' = PNone \<and>
   truthy (normalize_for_comparison str_scalar (dict_get rooted_heartbeat ''is_device_rooted'')) \<and>
   compare_heartbeat_with_registration str_scalar tablet rooted_heartbeat = Inr rooted_result \<and>
   \<lparr>field = ''is_device_rooted'', severity = calculate_severity ''is_device_rooted'',
      reason = get_mismatch_reason ''is_device_rooted''\<rparr> \<in> set (mismatches rooted_result)"
proof -
  have 1: "''is_device_rooted'' \<in> set HEARTBEAT_TRACKED_FIELDS"
    by (simp add: HEARTBEAT_TRACKED_FIELDS_def)
  have 2: "''is_device_rooted'' \<noteq> ''device_imeis''" by simp
  have 3: "\<not> (''is_device_rooted'' = ''installed_ram'' \<and>
      (device_type tablet = ''desktop'' \<or> device_type tablet = ''laptop''))" by simp
  have 4: "dict_has rooted_heartbeat ''is_device_rooted''"
    by (simp add: dict_has_def rooted_heartbeat_def)
  have 5: "\<not> ((device_type tablet = ''desktop'' \<or> device_type tablet = ''laptop'') \<and>
      ''is_device_rooted'' \<in> set MOBILE_ONLY_FIELDS \<union> set DESKTOP_SKIP_FIELDS)"
    by (simp add: tablet_def)
  have 6: "get_registration_baseline tablet = PDict tablet_baseline"
    by (simp add: get_registration_baseline_def tablet_def tablet_baseline_def)
  have 7: "has_baseline_data tablet_baseline" by code_simp
  have 8: "dict_get tablet_baseline ''is_device_rooted'' = PNone"
    by (simp add: dict_get_def tablet_baseline_def)
  have 9: "truthy (normalize_for_comparison str_scalar
      (dict_get rooted_heartbeat ''is_device_rooted''))"
    by (simp add: dict_get_def rooted_heartbeat_def)
  have 10: "compare_heartbeat_with_registration str_scalar tablet rooted_heartbeat =
      Inr rooted_result"
    by code_simp
  have h: "''is_device_rooted'' \<in> set HEARTBEAT_TRACKED_FIELDS \<and>
   ''is_device_rooted'' \<noteq> ''device_imeis'' \<and>
   \<not> (''is_device_rooted'' = ''installed_ram'' \<and>
      (device_type tablet = ''desktop'' \<or> device_type tablet = ''laptop'')) \<and>
   dict_has rooted_heartbeat ''is_device_rooted'' \<and>
   \<not> ((device_type tablet = ''desktop'' \<or> device_type tablet = ''laptop'') \<and>
      ''is_device_rooted'' \<in> set MOBILE_ONLY_FIELDS \<union> set DESKTOP_SKIP_FIELDS) \<and>
   get_registration_baseline tablet = PDict tablet_baseline \<and>
   has_baseline_data tablet_baseline \<and>
   (dict_get tablet_baseline ''is_device_rooted'' = PNone \<or>
    dict_get tablet_baseline ''is_device_rooted'' = PStr [] \<or>
    dict_get tablet_baseline ''is_device_rooted'' = PList []) \<and>
   truthy (normalize_for_comparison str_scalar (dict_get rooted_heartbeat ''is_device_rooted'')) \<and>
   compare_heartbeat_with_registration str_scalar tablet rooted_heartbeat = Inr rooted_result"
    by (intro conjI 1 2 3 4 5 6 7 9 10 disjI1 8)
  note g = one_sided_value_is_mismatch [of "''is_device_rooted''" tablet rooted_heartbeat
      tablet_baseline str_scalar rooted_result, THEN mp, OF h]
  show ?thesis by (intro conjI 1 4 6 7 8 9 10 g)
qed

text \<open>
  Claim C10 as stated fails. The tablet's baseline is established and not empty, and
  has neither a serial number nor a debugging flag. A heartbeat carrying the serial
  number \<^verbatim>\<open>" "\<close> (a string that is not empty) and the flag \<^verbatim>\<open>False\<close> (a value that is not
  \<^verbatim>\<open>None\<close>, the empty string or the empty list) yields no mismatch: both fields are
  recorded as \<^verbatim>\<open>both_empty\<close>.
\<close>

theorem one_sided_value_counterexample:
  "get_registration_baseline tablet = PDict tablet_baseline \<and>
   has_baseline_data tablet_baseline \<and>
   dict_get tablet_baseline ''serial_number'' = PNone \<and>
   dict_get blank_heartbeat ''serial_number'' = PStr '' '' \<and>
   dict_get tablet_baseline ''is_usb_debugging_enabled'' = PNone \<and>
   dict_get blank_heartbeat ''is_usb_debugging_enabled'' = PBool False \<and>
   compare_heartbeat_with_registration str_scalar tablet blank_heartbeat = Inr blank_result \<and>
   mismatches blank_result = [] \<and>
   map_of (comparison_details blank_result) ''serial_number'' =
     Some (matched_detail ''both_empty'' PNone (PStr '' '')) \<and>
   map_of (comparison_details blank_result) ''is_usb_debugging_enabled'' =
     Some (matched_detail ''both_empty'' PNone (PBool False))"
  by code_simp

subsection \<open>Rounding to binary64\<close>

lemma pow2_powi: "pow2 k = 2 powi k"
  by (simp add: pow2_def power_int_def inverse_eq_divide power_one_over)

lemma pow2_pos: "0 < pow2 k"
  by (simp add: pow2_powi)

lemma pow2_add: "pow2 (a + b) = pow2 a * pow2 b"
  by (simp add: pow2_powi power_int_add)

lemma pow2_mono: "a \<le> b \<Longrightarrow> pow2 a \<le> pow2 b"
  by (simp add: pow2_powi power_int_increasing)

lemma pow2_less_cancel: "pow2 a < pow2 b \<Longrightarrow> a < b"
  using pow2_mono [of b a] by (cases "a < b") auto

lemma pow2_nat: "pow2 (int n) = 2 ^ n"
  by (simp add: pow2_def)

lemma pow2_neg_nat: "pow2 (- int n) = 1 / 2 ^ n"
  by (simp add: pow2_powi power_int_minus inverse_eq_divide)

lemma pow2_53: "pow2 53 * pow2 (e - 52) = pow2 (e + 1)"
proof -
  have "pow2 (e + 1) = pow2 (53 + (e - 52))" by (rule arg_cong [of _ _ pow2]) simp
  also have "\<dots> = pow2 53 * pow2 (e - 52)" by (rule pow2_add)
  finally show ?thesis by simp
qed

lemma bit_length_bounds:
  "0 < n \<Longrightarrow> 2 ^ (bit_length n - 1) \<le> n \<and> n < 2 ^ bit_length n"
proof (induction n rule: bit_length.induct)
  case (1 n)
  show ?case
  proof (cases "n div 2 = 0")
    case True
    then have "n = 1" using 1(2) by presburger
    then show ?thesis by (simp add: bit_length.simps)
  next
    case False
    then have pos: "0 < n div 2" by simp
    have n0: "n \<noteq> 0" using 1(2) by simp
    from 1(1) [OF n0 pos] have ih: "2 ^ (bit_length (n div 2) - 1) \<le> n div 2"
      "n div 2 < 2 ^ bit_length (n div 2)" by blast+
    have bl: "bit_length n = Suc (bit_length (n div 2))"
      using n0 by (subst bit_length.simps) simp
    have blpos: "0 < bit_length (n div 2)"
      using pos by (subst bit_length.simps) simp
    have "(2::nat) ^ bit_length (n div 2) = 2 * 2 ^ (bit_length (n div 2) - 1)"
      using blpos by (cases "bit_length (n div 2)") auto
    then have "(2::nat) ^ bit_length (n div 2) \<le> 2 * (n div 2)" using ih(1) by simp
    then have lo: "(2::nat) ^ (bit_length n - 1) \<le> n" using bl by simp
    have "n div 2 + 1 \<le> 2 ^ bit_length (n div 2)" using ih(2) by simp
    then have "2 * (n div 2) + 2 \<le> 2 * 2 ^ bit_length (n div 2)" by simp
    moreover have "n < 2 * (n div 2) + 2" by presburger
    ultimately have hi: "n < 2 ^ bit_length n" using bl by simp
    show ?thesis using lo hi by blast
  qed
qed

lemma ilog2_bounds:
  assumes "0 < q"
  shows "pow2 (ilog2 q) \<le> q \<and> q < pow2 (ilog2 q + 1)"
proof (cases "1 \<le> q")
  case True
  define n where "n = nat \<lfloor>q\<rfloor>"
  have fl: "1 \<le> \<lfloor>q\<rfloor>" using True by simp
  then have n: "0 < n" "int n = \<lfloor>q\<rfloor>" by (simp_all add: n_def)
  have b: "2 ^ (bit_length n - 1) \<le> n" "n < 2 ^ bit_length n"
    using bit_length_bounds [OF n(1)] by blast+
  have blpos: "0 < bit_length n" using n(1) by (subst bit_length.simps) simp
  have e: "ilog2 q = int (bit_length n - 1)"
    using True blpos by (simp add: ilog2_def n_def)
  have "pow2 (ilog2 q) = of_nat (2 ^ (bit_length n - 1))"
    unfolding e pow2_nat by simp
  also have "\<dots> \<le> of_nat n" using b(1) by (simp only: of_nat_le_iff)
  also have "\<dots> = of_int \<lfloor>q\<rfloor>" using n(2) by (metis of_int_of_nat_eq)
  also have "\<dots> \<le> q" by simp
  finally have lo: "pow2 (ilog2 q) \<le> q" .
  have "ilog2 q + 1 = int (bit_length n)" using e blpos by simp
  then have "pow2 (ilog2 q + 1) = of_nat (2 ^ bit_length n)"
    by (simp add: pow2_nat)
  moreover have "n + 1 \<le> 2 ^ bit_length n" using b(2) by simp
  then have "(of_nat (n + 1) :: rat) \<le> of_nat (2 ^ bit_length n)"
    by (simp only: of_nat_le_iff)
  moreover have "q < of_int \<lfloor>q\<rfloor> + 1" by linarith
  then have "q < of_nat (n + 1)" using n(2) by (metis of_int_of_nat_eq of_nat_Suc Suc_eq_plus1 add.commute)
  ultimately have hi: "q < pow2 (ilog2 q + 1)" by linarith
  show ?thesis using lo hi by blast
next
  case False
  then have q1: "q < 1" by simp
  define m where "m = \<lceil>1 / q\<rceil>"
  define n where "n = nat (m - 1)"
  have t: "1 < 1 / q" using assms q1 by simp
  have m2: "2 \<le> m" unfolding m_def using t by linarith
  have n: "0 < n" "int n = m - 1" using m2 by (simp_all add: n_def)
  have b: "2 ^ (bit_length n - 1) \<le> n" "n < 2 ^ bit_length n"
    using bit_length_bounds [OF n(1)] by blast+
  have blpos: "0 < bit_length n" using n(1) by (subst bit_length.simps) simp
  have e: "ilog2 q = - int (bit_length n)"
    using False by (simp add: ilog2_def n_def m_def)
  have p1: "pow2 (ilog2 q) = 1 / 2 ^ bit_length n"
    unfolding e by (simp add: pow2_def)
  have "1 / q \<le> of_int m" unfolding m_def by simp
  also have "of_int m = (of_nat (n + 1) :: rat)" using n(2) by (metis add.commute add_diff_cancel_left' of_int_of_nat_eq of_nat_Suc Suc_eq_plus1 of_int_add of_int_1 diff_add_cancel)
  also have "\<dots> \<le> of_nat (2 ^ bit_length n)"
    using b(2) by (simp only: of_nat_le_iff)
  finally have "1 / q \<le> 2 ^ bit_length n" by simp
  then have lo: "pow2 (ilog2 q) \<le> q"
    unfolding p1 using assms by (simp add: field_simps)
  have "ilog2 q + 1 = - int (bit_length n - 1)" using e blpos by simp
  then have p2: "pow2 (ilog2 q + 1) = 1 / 2 ^ (bit_length n - 1)"
    by (simp only: pow2_neg_nat)
  have "(of_nat (2 ^ (bit_length n - 1)) :: rat) \<le> of_nat n"
    using b(1) by (simp only: of_nat_le_iff)
  also have "(of_nat n :: rat) = of_int (m - 1)" using n(2) by (metis of_int_of_nat_eq)
  also have "\<dots> < 1 / q" unfolding m_def by linarith
  finally have "2 ^ (bit_length n - 1) < 1 / q" by simp
  then have hi: "q < pow2 (ilog2 q + 1)"
    unfolding p2 using assms by (simp add: field_simps)
  show ?thesis using lo hi by blast
qed

lemma round_half_even_cases:
  "round_half_even t = \<lfloor>t\<rfloor> \<or> (round_half_even t = \<lfloor>t\<rfloor> + 1 \<and> of_int \<lfloor>t\<rfloor> < t)"
  by (auto simp: round_half_even_def Let_def)

lemma round_half_even_le: "t \<le> of_int k \<Longrightarrow> round_half_even t \<le> k"
proof -
  assume a: "t \<le> of_int k"
  then have 1: "\<lfloor>t\<rfloor> \<le> k" by (simp add: floor_le_iff) 
  from round_half_even_cases [of t] show ?thesis
  proof
    assume "round_half_even t = \<lfloor>t\<rfloor>"
    then show ?thesis using 1 by simp
  next
    assume b: "round_half_even t = \<lfloor>t\<rfloor> + 1 \<and> of_int \<lfloor>t\<rfloor> < t"
    then have "(of_int \<lfloor>t\<rfloor> :: rat) < of_int k" using a by linarith
    then have "\<lfloor>t\<rfloor> < k" by (simp only: of_int_less_iff)
    then show ?thesis using b by simp
  qed
qed

lemma round_half_even_nonneg: "0 \<le> t \<Longrightarrow> 0 \<le> round_half_even t"
proof -
  assume "0 \<le> t"
  then have "0 \<le> \<lfloor>t\<rfloor>" by simp
  then show ?thesis using round_half_even_cases [of t] by auto
qed

text \<open>A finite result of rounding a positive number: a significand of at most 53 bits
  times a power of two.\<close>

lemma round_positive:
  assumes "0 < q"
  shows "round_binary64 q = PosInf \<or>
    (\<exists>m e. round_binary64 q = Fin (of_int m * pow2 (e - 52)) \<and> 0 \<le> m \<and> m \<le> 2 ^ 53 \<and>
       - 1022 \<le> e \<and> of_int m * pow2 (e - 52) < pow2 1024)"
proof -
  define e where "e = max (ilog2 q) (- 1022)"
  define u where "u = pow2 (e - 52)"
  define m where "m = round_half_even (q / u)"
  have u: "0 < u" by (simp add: u_def pow2_pos)
  have r: "round_binary64 q =
      (if pow2 1024 \<le> of_int m * u then PosInf else Fin (of_int m * u))"
    using assms by (simp add: round_binary64_def Let_def e_def u_def m_def)
  have "q < pow2 (ilog2 q + 1)" using ilog2_bounds [OF assms] by blast
  also have "\<dots> \<le> pow2 (e + 1)" by (rule pow2_mono) (simp add: e_def)
  also have "pow2 (e + 1) = pow2 53 * u"
    unfolding u_def by (rule pow2_53 [symmetric])
  finally have "q / u < pow2 53" using u by (simp add: field_simps)
  then have "q / u \<le> of_int (2 ^ 53)" by (simp add: pow2_def)
  then have m53: "m \<le> 2 ^ 53" unfolding m_def by (rule round_half_even_le)
  have "0 \<le> q / u" using assms u by simp
  then have m0: "0 \<le> m" unfolding m_def by (rule round_half_even_nonneg)
  show ?thesis
  proof (cases "pow2 1024 \<le> of_int m * u")
    case True
    then show ?thesis using r by simp
  next
    case False
    then have "round_binary64 q = Fin (of_int m * pow2 (e - 52)) \<and> 0 \<le> m \<and> m \<le> 2 ^ 53 \<and>
       - 1022 \<le> e \<and> of_int m * pow2 (e - 52) < pow2 1024"
      using r m0 m53 by (simp add: u_def e_def)
    then show ?thesis by blast
  qed
qed

lemma round_negative:
  assumes "q < 0"
  shows "round_binary64 q = NegInf \<or> (\<exists>r. round_binary64 q = Fin r \<and> r \<le> 0)"
proof -
  define e where "e = max (ilog2 \<bar>q\<bar>) (- 1022)"
  define u where "u = pow2 (e - 52)"
  define m where "m = round_half_even (\<bar>q\<bar> / u)"
  have u: "0 < u" by (simp add: u_def pow2_pos)
  have r: "round_binary64 q =
      (if pow2 1024 \<le> of_int m * u then NegInf else Fin (- (of_int m * u)))"
    using assms by (simp add: round_binary64_def Let_def e_def u_def m_def)
  have "0 \<le> \<bar>q\<bar> / u" using u by simp
  then have "0 \<le> m" unfolding m_def by (rule round_half_even_nonneg)
  then have "0 \<le> (of_int m :: rat) * u" using u by simp
  then show ?thesis using r by auto
qed

text \<open>Rounding a positive number that lies below a representable number does not
  exceed that number.\<close>

lemma round_below_representable:
  assumes "0 < y" "y < r" "r = of_int m0 * pow2 (e0 - 52)" "m0 \<le> 2 ^ 53" "- 1022 \<le> e0"
    "r < pow2 1024"
  shows "\<exists>r'. round_binary64 y = Fin r' \<and> r' \<le> r"
proof -
  define e where "e = max (ilog2 y) (- 1022)"
  define u where "u = pow2 (e - 52)"
  define m where "m = round_half_even (y / u)"
  have u: "0 < u" by (simp add: u_def pow2_pos)
  have rd: "round_binary64 y =
      (if pow2 1024 \<le> of_int m * u then PosInf else Fin (of_int m * u))"
    using assms(1) by (simp add: round_binary64_def Let_def e_def u_def m_def)
  have r_le: "r \<le> pow2 (e0 + 1)"
  proof -
    have "(of_int m0 :: rat) \<le> of_int (2 ^ 53)" using assms(4) by (simp only: of_int_le_iff)
    then have "(of_int m0 :: rat) \<le> pow2 53" by (simp add: pow2_def)
    then have "r \<le> pow2 53 * pow2 (e0 - 52)"
      unfolding assms(3) using pow2_pos [of "e0 - 52"] by (simp add: mult_right_mono)
    then show ?thesis by (simp only: pow2_53)
  qed
  have ee: "e \<le> e0"
  proof (cases "ilog2 y \<le> - 1022")
    case True
    then have "e = - 1022" by (simp add: e_def)
    then show ?thesis using assms(5) by simp
  next
    case False
    then have e1: "e = ilog2 y" by (simp add: e_def)
    have "pow2 e \<le> y" unfolding e1 using ilog2_bounds [OF assms(1)] by blast
    then have "pow2 e < pow2 (e0 + 1)" using assms(2) r_le by linarith
    then have "e < e0 + 1" by (rule pow2_less_cancel)
    then show ?thesis by simp
  qed
  define k where "k = m0 * 2 ^ nat (e0 - e)"
  have "pow2 (e0 - 52) = pow2 (e0 - e) * pow2 (e - 52)"
    unfolding pow2_add [symmetric] by simp
  moreover have "pow2 (e0 - e) = of_int (2 ^ nat (e0 - e))" using ee by (simp add: pow2_def)
  ultimately have rk: "r = of_int k * u"
    unfolding assms(3) k_def u_def by simp
  have "y / u \<le> of_int k" using assms(2) rk u by (simp add: field_simps)
  then have "m \<le> k" unfolding m_def by (rule round_half_even_le)
  then have "(of_int m :: rat) \<le> of_int k" by (simp only: of_int_le_iff)
  then have le: "of_int m * u \<le> r" unfolding rk using u by (simp add: mult_right_mono)
  then have "\<not> pow2 1024 \<le> of_int m * u" using assms(6) by linarith
  then have "round_binary64 y = Fin (of_int m * u)" using rd by simp
  then show ?thesis using le by blast
qed

text \<open>A float parsed from a numeral is not less than itself minus one.\<close>

lemma sub_one_not_above:
  assumes "0 \<le> q"
  shows "\<not> float_less (round_binary64 q) (float_sub_one (round_binary64 q))"
proof (cases "q = 0")
  case True
  have x0: "round_binary64 q = Fin 0" using True by (simp add: round_binary64_def)
  have "round_binary64 (0 - 1) = NegInf \<or> (\<exists>r. round_binary64 (0 - 1) = Fin r \<and> r \<le> 0)"
    by (rule round_negative) simp
  then show ?thesis unfolding x0 float_sub_one.simps by auto
next
  case False
  then have "0 < q" using assms by simp
  from round_positive [OF this] show ?thesis
  proof
    assume "round_binary64 q = PosInf"
    then show ?thesis by simp
  next
    assume "\<exists>m e. round_binary64 q = Fin (of_int m * pow2 (e - 52)) \<and> 0 \<le> m \<and> m \<le> 2 ^ 53 \<and>
       - 1022 \<le> e \<and> of_int m * pow2 (e - 52) < pow2 1024"
    then obtain m e where me: "round_binary64 q = Fin (of_int m * pow2 (e - 52))" "0 \<le> m"
      "m \<le> 2 ^ 53" "- 1022 \<le> e" "of_int m * pow2 (e - 52) < pow2 1024" by blast
    define r where "r = (of_int m :: rat) * pow2 (e - 52)"
    have r0: "0 \<le> r" unfolding r_def using me(2) pow2_pos [of "e - 52"] by simp
    have x: "round_binary64 q = Fin r" using me(1) r_def by simp
    consider "r - 1 < 0" | "r - 1 = 0" | "0 < r - 1" by linarith
    then show ?thesis
    proof cases
      case 1
      from round_negative [OF 1] show ?thesis using r0 unfolding x by auto
    next
      case 2
      then show ?thesis unfolding x by (simp add: round_binary64_def)
    next
      case 3
      have "r - 1 < r" by simp
      from round_below_representable [OF 3 this r_def me(3,4) me(5) [folded r_def]]
      obtain r' where "round_binary64 (r - 1) = Fin r'" "r' \<le> r" by blast
      then show ?thesis unfolding x by simp
    qed
  qed
qed

lemma decimal_value_nonneg: "0 \<le> decimal_value m"
  by (cases m) (simp add: decimal_value_def)

lemma ram_reflexive: "compare_ram_with_tolerance S v v = (True, None)"
proof (cases "extract_ram_gb v")
  case None
  then show ?thesis by (simp add: ram_unparsed)
next
  case (Some x)
  then obtain q where "x = round_binary64 q" "0 \<le> q"
    using decimal_value_nonneg
    by (cases v) (auto simp: extract_ram_gb_def split: option.splits)
  then have "\<not> float_less x (float_sub_one x)" using sub_one_not_above by simp
  then show ?thesis using ram_parsed [OF Some Some, of S] by simp
qed

subsection \<open>The decision to lock\<close>

lemma imei_reflexive:
  assumes "compare_imei_lists S v v = Inr p"
  shows "p = (True, None)"
proof (cases "truthy v")
  case False
  then show ?thesis using assms by (simp add: compare_imei_lists_def)
next
  case True
  show ?thesis
  proof (cases "py_iter v")
    case (Inl e)
    then show ?thesis using assms True by (simp add: compare_imei_lists_def)
  next
    case (Inr xs)
    then show ?thesis
      using assms True by (simp add: compare_imei_lists_def Let_def list_ex_iff)
  qed
qed

lemma medium_severity:
  "g \<in> set MEDIUM_SEVERITY_FIELDS \<Longrightarrow> calculate_severity g = ''medium''"
  by (auto simp: calculate_severity_def MEDIUM_SEVERITY_FIELDS_def HIGH_SEVERITY_FIELDS_def)

lemma record_detail_high: "ls_high (record_detail st g dt) = ls_high st"
  by (simp add: record_detail_def)

lemma record_mismatch_medium_high:
  "ls_high (record_mismatch st g ''medium'' rsn reg cur) = ls_high st"
  by (simp add: record_mismatch_def)

text \<open>An iteration adds no high mismatch when the field is of medium severity on this
  device, or when the baseline and the heartbeat hold the same value for it.\<close>

lemma no_high_step:
  assumes cf: "compare_field S dev d inc st g = Inr st'"
    and ok: "(g \<in> set MEDIUM_SEVERITY_FIELDS \<and> \<not> (g = ''installed_ram'' \<and> is_desktop dev)) \<or>
         dict_get d g = dict_get inc g"
  shows "ls_high st' = ls_high st"
proof -
  have nm: "''device_imeis'' \<notin> set MEDIUM_SEVERITY_FIELDS"
    by (simp add: MEDIUM_SEVERITY_FIELDS_def)
  consider (skip) "skipped dev inc g"
    | (imei) "\<not> skipped dev inc g" "g = ''device_imeis''"
    | (ram) "\<not> skipped dev inc g" "g \<noteq> ''device_imeis''" "g = ''installed_ram''"
        "is_desktop dev"
    | (exact) "\<not> skipped dev inc g" "g \<noteq> ''device_imeis''"
        "\<not> (g = ''installed_ram'' \<and> is_desktop dev)"
    by blast
  then show ?thesis
  proof cases
    case skip
    then show ?thesis using cf by (simp add: compare_field_skipped)
  next
    case imei
    then have eq: "dict_get d g = dict_get inc g" using ok nm by blast
    obtain p where p: "compare_imei_lists S (dict_get inc g) (dict_get inc g) = Inr p"
      using cf unfolding compare_field_imei [OF imei] eq
      by (cases "compare_imei_lists S (dict_get inc g) (dict_get inc g)") auto
    have "p = (True, None)" using p by (rule imei_reflexive)
    then show ?thesis
      using cf p unfolding compare_field_imei [OF imei] eq
      by (auto simp: record_detail_high)
  next
    case ram
    then have eq: "dict_get d g = dict_get inc g" using ok by blast
    show ?thesis
      using cf unfolding compare_field_ram [OF ram] eq ram_reflexive
      by (auto simp: record_detail_high)
  next
    case exact
    show ?thesis
    proof (cases "dict_get d g = dict_get inc g")
      case True
      show ?thesis
        using cf unfolding compare_field_exact [OF exact] True
        by (auto simp: py_eq_refl record_detail_high)
    next
      case False
      then have "calculate_severity g = ''medium''" using ok medium_severity by blast
      then show ?thesis
        using cf unfolding compare_field_exact [OF exact]
        by (auto simp: record_detail_high record_mismatch_medium_high split: if_splits)
    qed
  qed
qed

lemma no_high_loop:
  "compare_fields S dev d inc st flds = Inr st' \<Longrightarrow>
   \<forall>g \<in> set flds. (g \<in> set MEDIUM_SEVERITY_FIELDS \<and> \<not> (g = ''installed_ram'' \<and> is_desktop dev)) \<or>
      \<not> dict_has inc g \<or> dict_get d g = dict_get inc g \<Longrightarrow>
   ls_high st' = ls_high st"
proof (induction flds arbitrary: st)
  case Nil
  then show ?case by simp
next
  case (Cons g flds)
  from Cons.prems(1) obtain st1 where
    1: "compare_field S dev d inc st g = Inr st1" and
    2: "compare_fields S dev d inc st1 flds = Inr st'"
    by (auto split: sum.splits)
  have g: "(g \<in> set MEDIUM_SEVERITY_FIELDS \<and> \<not> (g = ''installed_ram'' \<and> is_desktop dev)) \<or>
      \<not> dict_has inc g \<or> dict_get d g = dict_get inc g"
    using Cons.prems(2) by simp
  have "ls_high st1 = ls_high st"
  proof (cases "dict_has inc g")
    case False
    then have "skipped dev inc g" by (simp add: skipped_def)
    then show ?thesis using 1 by (simp add: compare_field_skipped)
  next
    case True
    then show ?thesis using g no_high_step [OF 1] by blast
  qed
  moreover have "ls_high st' = ls_high st1"
    using Cons.IH [OF 2] Cons.prems(2) by simp
  ultimately show ?case by simp
qed

lemma lock_reason_finish:
  "lock_reason (finish_comparison st) =
     (if 0 < ls_high st
      then Some (''Device security compromised: '' @
             py_join '', '' (map field (filter (\<lambda>m. severity m = ''high'') (ls_mismatches st))))
      else None)"
  by (simp add: finish_comparison_def Let_def)

lemma lock_decision:
  assumes "compare_heartbeat_with_registration S dev inc = Inr res"
  shows "(should_auto_lock res \<longleftrightarrow> 0 < high_severity_count res) \<and>
     lock_reason res =
       (if should_auto_lock res
        then Some (''Device security compromised: '' @
               py_join '', '' (map field (filter (\<lambda>m. severity m = ''high'') (mismatches res))))
        else None)"
proof -
  from compare_heartbeat_result [OF assms]
  consider "res = skipped_comparison ''not_established''"
    | "res = skipped_comparison ''empty_baseline''"
    | st where "res = finish_comparison st"
    by blast
  then show ?thesis
  proof cases
    case 1
    then show ?thesis by (simp add: skipped_fields)
  next
    case 2
    then show ?thesis by (simp add: skipped_fields)
  next
    case 3
    show ?thesis unfolding 3 finish_fields lock_reason_finish by simp
  qed
qed

lemma medium_only_no_lock:
  assumes r: "compare_heartbeat_with_registration S dev inc = Inr res"
    and f: "f \<in> set MEDIUM_SEVERITY_FIELDS" "\<not> (f = ''installed_ram'' \<and> is_desktop dev)"
    and b: "get_registration_baseline dev = PDict d"
    and same: "\<forall>g \<in> set HEARTBEAT_TRACKED_FIELDS.
       g \<noteq> f \<and> dict_has inc g \<longrightarrow> dict_get d g = dict_get inc g"
  shows "\<not> should_auto_lock res"
proof -
  from compare_heartbeat_result [OF r]
  consider "res = skipped_comparison ''not_established''"
    | "res = skipped_comparison ''empty_baseline''"
    | d' st where "get_registration_baseline dev = PDict d'"
        "compare_fields S dev d' inc initial_state HEARTBEAT_TRACKED_FIELDS = Inr st"
        "res = finish_comparison st"
    by blast
  then show ?thesis
  proof cases
    case 1
    then show ?thesis by (simp add: skipped_fields)
  next
    case 2
    then show ?thesis by (simp add: skipped_fields)
  next
    case 3
    then have d: "d' = d" using b by simp
    have "\<forall>g \<in> set HEARTBEAT_TRACKED_FIELDS.
        (g \<in> set MEDIUM_SEVERITY_FIELDS \<and> \<not> (g = ''installed_ram'' \<and> is_desktop dev)) \<or>
        \<not> dict_has inc g \<or> dict_get d g = dict_get inc g"
    proof
      fix g
      assume g: "g \<in> set HEARTBEAT_TRACKED_FIELDS"
      have imp: "g \<noteq> f \<and> dict_has inc g \<longrightarrow> dict_get d g = dict_get inc g"
        using same g by (rule bspec)
      show "(g \<in> set MEDIUM_SEVERITY_FIELDS \<and> \<not> (g = ''installed_ram'' \<and> is_desktop dev)) \<or>
        \<not> dict_has inc g \<or> dict_get d g = dict_get inc g"
      proof (cases "g = f")
        case True
        show ?thesis unfolding True using f by (intro disjI1 conjI)
      next
        case False
        show ?thesis
        proof (cases "dict_has inc g")
          case True
          then have "dict_get d g = dict_get inc g" using imp False by (intro mp [OF imp] conjI)
          then show ?thesis by (intro disjI2)
        next
          case False
          then show ?thesis by (intro disjI2 disjI1)
        qed
      qed
    qed
    from no_high_loop [OF 3(2) [unfolded d] this]
    have "ls_high st = 0" by (simp add: initial_state_def)
    then show ?thesis unfolding 3(3) finish_fields by simp
  qed
qed

text \<open>
  Claim C1, as the code has it. In every result the comparison returns,
  \<^verbatim>\<open>should_auto_lock\<close> is true exactly when \<^verbatim>\<open>high_severity_count\<close> is positive; when it is
  true, \<^verbatim>\<open>lock_reason\<close> is the text \<^verbatim>\<open>Device security compromised: \<close> followed by the names
  of the fields whose mismatch is of high severity, in the order of the loop, joined by
  a comma and a space; otherwise there is no lock reason. When the heartbeat differs
  from the baseline in one field only, and that field is \<^verbatim>\<open>total_storage\<close>,
  \<^verbatim>\<open>is_custom_rom\<close>, or \<^verbatim>\<open>installed_ram\<close> on a device that is neither desktop nor laptop,
  \<^verbatim>\<open>should_auto_lock\<close> is false.
\<close>

theorem auto_lock_on_high_severity:
  "compare_heartbeat_with_registration S dev inc = Inr res \<longrightarrow>
     (should_auto_lock res \<longleftrightarrow> 0 < high_severity_count res) \<and>
     (should_auto_lock res \<longrightarrow>
        lock_reason res =
          Some (''Device security compromised: '' @
            py_join '', '' (map field (filter (\<lambda>m. severity m = ''high'') (mismatches res))))) \<and>
     (\<not> should_auto_lock res \<longrightarrow> lock_reason res = None) \<and>
     (f \<in> set MEDIUM_SEVERITY_FIELDS \<and>
      \<not> (f = ''installed_ram'' \<and>
         (device_type dev = ''desktop'' \<or> device_type dev = ''laptop'')) \<and>
      get_registration_baseline dev = PDict d \<and>
      (\<forall>g \<in> set HEARTBEAT_TRACKED_FIELDS.
         g \<noteq> f \<and> dict_has inc g \<longrightarrow> dict_get d g = dict_get inc g) \<longrightarrow>
      \<not> should_auto_lock res)"
proof
  assume r: "compare_heartbeat_with_registration S dev inc = Inr res"
  have dk: "is_desktop dev \<longleftrightarrow> device_type dev = ''desktop'' \<or> device_type dev = ''laptop''"
    by (auto simp: is_desktop_def)
  note ld = lock_decision [OF r]
  have 1: "should_auto_lock res \<longleftrightarrow> 0 < high_severity_count res"
    using ld by (rule conjunct1)
  have 2: "should_auto_lock res \<longrightarrow>
        lock_reason res =
          Some (''Device security compromised: '' @
            py_join '', '' (map field (filter (\<lambda>m. severity m = ''high'') (mismatches res))))"
    using ld [THEN conjunct2] by simp
  have 3: "\<not> should_auto_lock res \<longrightarrow> lock_reason res = None"
    using ld [THEN conjunct2] by simp
  have 4: "f \<in> set MEDIUM_SEVERITY_FIELDS \<and>
      \<not> (f = ''installed_ram'' \<and>
         (device_type dev = ''desktop'' \<or> device_type dev = ''laptop'')) \<and>
      get_registration_baseline dev = PDict d \<and>
      (\<forall>g \<in> set HEARTBEAT_TRACKED_FIELDS.
         g \<noteq> f \<and> dict_has inc g \<longrightarrow> dict_get d g = dict_get inc g) \<longrightarrow>
      \<not> should_auto_lock res"
  proof
    assume h: "f \<in> set MEDIUM_SEVERITY_FIELDS \<and>
      \<not> (f = ''installed_ram'' \<and>
         (device_type dev = ''desktop'' \<or> device_type dev = ''laptop'')) \<and>
      get_registration_baseline dev = PDict d \<and>
      (\<forall>g \<in> set HEARTBEAT_TRACKED_FIELDS.
         g \<noteq> f \<and> dict_has inc g \<longrightarrow> dict_get d g = dict_get inc g)"
    have a: "f \<in> set MEDIUM_SEVERITY_FIELDS" using h by (rule conjunct1)
    have b: "\<not> (f = ''installed_ram'' \<and> is_desktop dev)"
      unfolding dk using h [THEN conjunct2] by (rule conjunct1)
    have c: "get_registration_baseline dev = PDict d"
      using h [THEN conjunct2, THEN conjunct2] by (rule conjunct1)
    have e: "\<forall>g \<in> set HEARTBEAT_TRACKED_FIELDS.
         g \<noteq> f \<and> dict_has inc g \<longrightarrow> dict_get d g = dict_get inc g"
      using h [THEN conjunct2, THEN conjunct2] by (rule conjunct2)
    show "\<not> should_auto_lock res" by (rule medium_only_no_lock [OF r a b c e])
  qed
  show "(should_auto_lock res \<longleftrightarrow> 0 < high_severity_count res) \<and>
     (should_auto_lock res \<longrightarrow>
        lock_reason res =
          Some (''Device security compromised: '' @
            py_join '', '' (map field (filter (\<lambda>m. severity m = ''high'') (mismatches res))))) \<and>
     (\<not> should_auto_lock res \<longrightarrow> lock_reason res = None) \<and>
     (f \<in> set MEDIUM_SEVERITY_FIELDS \<and>
      \<not> (f = ''installed_ram'' \<and>
         (device_type dev = ''desktop'' \<or> device_type dev = ''laptop'')) \<and>
      get_registration_baseline dev = PDict d \<and>
      (\<forall>g \<in> set HEARTBEAT_TRACKED_FIELDS.
         g \<noteq> f \<and> dict_has inc g \<longrightarrow> dict_get d g = dict_get inc g) \<longrightarrow>
      \<not> should_auto_lock res)"
    by (intro conjI 1 2 3 4)
qed

theorem auto_lock_on_high_severity_witness:
  "compare_heartbeat_with_registration str_scalar phone tampered_heartbeat = Inr tampered_result \<and>
   should_auto_lock tampered_result \<and> 0 < high_severity_count tampered_result \<and>
   lock_reason tampered_result =
     Some (''Device security compromised: '' @
       py_join '', ''
         (map field (filter (\<lambda>m. severity m = ''high'') (mismatches tampered_result)))) \<and>
   compare_heartbeat_with_registration str_scalar phone storage_heartbeat = Inr storage_result \<and>
   ''total_storage'' \<in> set MEDIUM_SEVERITY_FIELDS \<and>
   get_registration_baseline phone = PDict phone_baseline \<and>
   dict_get phone_baseline ''serial_number'' = dict_get storage_heartbeat ''serial_number'' \<and>
   \<not> should_auto_lock storage_result"
proof -
  have e1: "compare_heartbeat_with_registration str_scalar phone tampered_heartbeat =
      Inr tampered_result"
    by code_simp
  have e2: "compare_heartbeat_with_registration str_scalar phone storage_heartbeat =
      Inr storage_result"
    by code_simp
  have l: "should_auto_lock tampered_result" by (simp add: tampered_result_def)
  note g1 = auto_lock_on_high_severity [of str_scalar phone tampered_heartbeat tampered_result
      "''total_storage''" phone_baseline, THEN mp, OF e1]
  have h1: "0 < high_severity_count tampered_result"
    using g1 [THEN conjunct1] l by (rule iffD1)
  have h2: "lock_reason tampered_result =
     Some (''Device security compromised: '' @
       py_join '', ''
         (map field (filter (\<lambda>m. severity m = ''high'') (mismatches tampered_result))))"
    using g1 [THEN conjunct2, THEN conjunct1] l by (rule mp)
  have m: "''total_storage'' \<in> set MEDIUM_SEVERITY_FIELDS"
    by (simp add: MEDIUM_SEVERITY_FIELDS_def)
  have nd: "\<not> (''total_storage'' = ''installed_ram'' \<and>
      (device_type phone = ''desktop'' \<or> device_type phone = ''laptop''))"
    by simp
  have b: "get_registration_baseline phone = PDict phone_baseline"
    by (simp add: get_registration_baseline_def phone_def phone_baseline_def)
  have s: "dict_get phone_baseline ''serial_number'' = dict_get storage_heartbeat ''serial_number''"
    by (simp add: dict_get_def phone_baseline_def storage_heartbeat_def)
  have same: "\<forall>g \<in> set HEARTBEAT_TRACKED_FIELDS.
      g \<noteq> ''total_storage'' \<and> dict_has storage_heartbeat g \<longrightarrow>
      dict_get phone_baseline g = dict_get storage_heartbeat g"
    by (simp add: HEARTBEAT_TRACKED_FIELDS_def dict_has_def dict_get_def phone_baseline_def
        storage_heartbeat_def)
  note g2 = auto_lock_on_high_severity [of str_scalar phone storage_heartbeat storage_result
      "''total_storage''" phone_baseline, THEN mp, OF e2, THEN conjunct2, THEN conjunct2,
      THEN conjunct2, THEN mp]
  have n: "\<not> should_auto_lock storage_result"
    by (rule g2) (intro conjI m nd b same)
  show ?thesis by (intro conjI e1 l h1 h2 e2 m b s n)
qed

text \<open>
  Claim C1 as stated fails in its last part. \<^verbatim>\<open>installed_ram\<close> is one of
  \<^verbatim>\<open>MEDIUM_SEVERITY_FIELDS\<close>, yet on a desktop the RAM branch records its mismatch with
  severity \<^verbatim>\<open>high\<close>: the workstation registered with \<^verbatim>\<open>16.0GB\<close>, whose heartbeat differs
  from the baseline in \<^verbatim>\<open>installed_ram\<close> only, is locked.
\<close>

theorem medium_field_locks_desktop_counterexample:
  "''installed_ram'' \<in> set MEDIUM_SEVERITY_FIELDS \<and>
   get_registration_baseline workstation = PDict workstation_baseline \<and>
   list_all (\<lambda>g. g = ''installed_ram'' \<or>
                dict_get workstation_baseline g = dict_get halved_ram_heartbeat g)
     HEARTBEAT_TRACKED_FIELDS \<and>
   (\<exists>res. compare_heartbeat_with_registration str_scalar workstation halved_ram_heartbeat
            = Inr res \<and>
      should_auto_lock res \<and> high_severity_count res = 1 \<and>
      lock_reason res = Some ''Device security compromised: installed_ram'')"
proof -
  have 1: "''installed_ram'' \<in> set MEDIUM_SEVERITY_FIELDS"
    by (simp add: MEDIUM_SEVERITY_FIELDS_def)
  have 2: "get_registration_baseline workstation = PDict workstation_baseline"
    by (simp add: get_registration_baseline_def workstation_def workstation_baseline_def)
  have 3: "list_all (\<lambda>g. g = ''installed_ram'' \<or>
                dict_get workstation_baseline g = dict_get halved_ram_heartbeat g)
     HEARTBEAT_TRACKED_FIELDS"
    by (simp add: HEARTBEAT_TRACKED_FIELDS_def dict_get_def workstation_baseline_def
        halved_ram_heartbeat_def)
  have 4: "\<exists>res. compare_heartbeat_with_registration str_scalar workstation halved_ram_heartbeat
            = Inr res \<and>
      should_auto_lock res \<and> high_severity_count res = 1 \<and>
      lock_reason res = Some ''Device security compromised: installed_ram''"
    unfolding workstation_comparison by simp
  show ?thesis by (intro conjI 1 2 3 4)
qed

end
